theory Spec2Isabelle
  imports Main
begin

section \<open>Text and integers of the interpreter\<close>

text \<open>
  The script \<^verbatim>\<open>tg_go_to_frame.py\<close> keeps the text of one entry field and validates it
  with the interpreter's \<^verbatim>\<open>int(value)\<close>. A text of the field is a list of Unicode code
  points, each a natural number; \<open>ascii\<close> turns a literal into such a text. The fixed
  names, titles and messages of the script stay HOL strings. Integers are unbounded, as
  in the interpreter. Its conversions between an integer and a decimal text, \<^verbatim>\<open>int\<close> and
  \<^verbatim>\<open>str\<close>, raise \<^verbatim>\<open>ValueError\<close> beyond a limit on the number of digits, which the script
  leaves at its default of 4300.
\<close>

type_synonym str = "nat list"

definition ascii :: "string \<Rightarrow> str" where
  "ascii s = map of_char s"

definition int_max_str_digits :: nat where
  \<comment> \<open>\<^verbatim>\<open>sys.get_int_max_str_digits()\<close>, never changed by the script\<close>
  "int_max_str_digits = 4300"

definition Py_ISSPACE :: "nat \<Rightarrow> bool" where
  \<comment> \<open>tab, line feed, vertical tab, form feed, carriage return, space\<close>
  "Py_ISSPACE c = ((9 \<le> c \<and> c \<le> 13) \<or> c = 32)"

definition Py_UNICODE_ISSPACE :: "nat \<Rightarrow> bool" where
  \<comment> \<open>the white space of Unicode beyond ASCII: NEL, the no-break space, the Ogham space
      mark, the spaces U+2000 to U+200A, the line and paragraph separators, the narrow
      no-break space, the medium mathematical space and the ideographic space\<close>
  "Py_UNICODE_ISSPACE c =
     (c = 0x85 \<or> c = 0xA0 \<or> c = 0x1680 \<or> (0x2000 \<le> c \<and> c \<le> 0x200A) \<or>
      c = 0x2028 \<or> c = 0x2029 \<or> c = 0x202F \<or> c = 0x205F \<or> c = 0x3000)"

definition decimal_zeros :: "nat list" where
  \<comment> \<open>the digit zero of every script of Unicode 14.0 beyond ASCII; the digits one to
      nine of a script follow its zero\<close>
  "decimal_zeros =
     [1632, 1776, 1984, 2406, 2534, 2662, 2790, 2918, 3046, 3174, 3302, 3430, 3558, 3664,
      3792, 3872, 4160, 4240, 6112, 6160, 6470, 6608, 6784, 6800, 6992, 7088, 7232, 7248,
      42528, 43216, 43264, 43472, 43504, 43600, 44016, 65296, 66720, 68912, 69734, 69872,
      69942, 70096, 70384, 70736, 70864, 71248, 71360, 71472, 71904, 72016, 72784, 73040,
      73120, 92768, 92864, 93008, 120782, 120792, 120802, 120812, 120822, 123200, 123632,
      125264, 130032]"

definition Py_UNICODE_TODECIMAL :: "nat \<Rightarrow> nat option" where
  "Py_UNICODE_TODECIMAL c =
     (case filter (\<lambda>z. z \<le> c \<and> c < z + 10) decimal_zeros of
        [] \<Rightarrow> None
      | z # _ \<Rightarrow> Some (c - z))"

definition to_ascii :: "nat \<Rightarrow> nat" where
  \<comment> \<open>What \<^verbatim>\<open>int\<close> does to a text before it scans it: a code point below 127 stays, any
      other white space becomes a space, any other decimal digit becomes the ASCII digit
      of its value, and everything else becomes a question mark.\<close>
  "to_ascii c =
     (if c < 127 then c
      else if Py_UNICODE_ISSPACE c then 32
      else (case Py_UNICODE_TODECIMAL c of None \<Rightarrow> 63 | Some d \<Rightarrow> 48 + d))"

definition is_digit :: "nat \<Rightarrow> bool" where
  "is_digit c = (48 \<le> c \<and> c \<le> 57)"

definition digit_value :: "nat \<Rightarrow> nat" where
  "digit_value c = c - 48"

text \<open>
  The scan of the digits: \<open>prev\<close> is the character read last, \<open>digits\<close> counts the digits
  read, \<open>acc\<close> is their value. An underscore (95) may stand between two digits only, so two
  in a row, or one at the end of the digits, is an error (\<open>None\<close>). The scan stops at the
  first character that is neither a digit nor an underscore and returns the rest.
\<close>

fun scan_digits :: "nat \<Rightarrow> nat \<Rightarrow> nat \<Rightarrow> str \<Rightarrow> (nat \<times> nat \<times> str) option" where
  "scan_digits prev digits acc [] =
     (if prev = 95 then None else Some (digits, acc, []))"
| "scan_digits prev digits acc (c # cs) =
     (if c = 95 then
        (if prev = 95 then None else scan_digits c digits acc cs)
      else if is_digit c then scan_digits c (Suc digits) (10 * acc + digit_value c) cs
      else if prev = 95 then None
      else Some (digits, acc, c # cs))"

definition take_sign :: "str \<Rightarrow> int \<times> str" where
  \<comment> \<open>a plus sign is 43, a minus sign 45\<close>
  "take_sign str =
     (case str of
        [] \<Rightarrow> (1, str)
      | c # cs \<Rightarrow>
          if c = 43 then (1, cs)
          else if c = 45 then (- 1, cs)
          else (1, str))"

definition PyLong_FromString :: "str \<Rightarrow> int option" where
  \<comment> \<open>base 10: white space, a sign, digits with single underscores between them, white
      space, and then the end of the text; more digits than the limit are an error\<close>
  "PyLong_FromString str0 =
     (let (sign, str) = take_sign (dropWhile Py_ISSPACE str0) in
      if take 1 str = [95] then None
      else
        (case scan_digits 0 0 0 str of
           None \<Rightarrow> None
         | Some (digits, v, rest) \<Rightarrow>
             if digits > int_max_str_digits then None
             else if digits = 0 then None
             else if dropWhile Py_ISSPACE rest \<noteq> [] then None
             else Some (sign * int v)))"

definition py_int :: "str \<Rightarrow> int option" where
  \<comment> \<open>\<^verbatim>\<open>int(value)\<close> on a text: \<open>None\<close> is the \<^verbatim>\<open>ValueError\<close>\<close>
  "py_int value = PyLong_FromString (map to_ascii value)"

fun str_digits :: "nat \<Rightarrow> str" where
  "str_digits n =
     (if n < 10 then [48 + n]
      else str_digits (n div 10) @ [48 + n mod 10])"

declare str_digits.simps [simp del]

definition decimal :: "int \<Rightarrow> str" where
  \<comment> \<open>the decimal numeral of an integer, of any length\<close>
  "decimal i = (if i < 0 then 45 # str_digits (nat (- i)) else str_digits (nat i))"

definition py_str :: "int \<Rightarrow> str option" where
  \<comment> \<open>\<^verbatim>\<open>str(n)\<close> of an integer: \<open>None\<close> is the \<^verbatim>\<open>ValueError\<close> for a numeral of more digits
      than the limit\<close>
  "py_str i =
     (if length (str_digits (nat \<bar>i\<bar>)) > int_max_str_digits then None else Some (decimal i))"

subsection \<open>The two readings of "a base-10 integer, optionally signed"\<close>

definition drop_sign :: "str \<Rightarrow> str" where
  "drop_sign s =
     (case s of
        [] \<Rightarrow> s
      | c # cs \<Rightarrow> if c = 43 \<or> c = 45 then cs else s)"

definition signed_decimal :: "str \<Rightarrow> bool" where
  \<comment> \<open>the specification's words: an optional sign, then one or more decimal digits\<close>
  "signed_decimal s = (drop_sign s \<noteq> [] \<and> list_all is_digit (drop_sign s))"

fun digit_groups :: "str \<Rightarrow> bool" where
  \<comment> \<open>runs of digits with one underscore between two runs\<close>
  "digit_groups [] = False"
| "digit_groups [c] = is_digit c"
| "digit_groups (c # d # cs) =
     (is_digit c \<and> (if d = 95 then digit_groups cs else digit_groups (d # cs)))"

definition strip :: "str \<Rightarrow> str" where
  "strip s = rev (dropWhile Py_ISSPACE (rev (dropWhile Py_ISSPACE s)))"

definition integer_literal :: "str \<Rightarrow> bool" where
  \<comment> \<open>white space, an optional sign, digit groups, white space; at most 4300 digits\<close>
  "integer_literal s =
     (digit_groups (drop_sign (strip s)) \<and> length (filter is_digit s) \<le> int_max_str_digits)"

definition dec_step :: "nat \<Rightarrow> nat \<Rightarrow> nat" where
  "dec_step a c = 10 * a + digit_value c"

section \<open>The state of the script\<close>

datatype rpc_error =
    ConnectionError string   \<comment> \<open>the text of the exception\<close>
  | TimeoutError string
  | ReplyError string
  | ApiError string          \<comment> \<open>the text of the traceback\<close>

datatype rpc_call = Root | GetParam string | SetParam string int

datatype py_exception = ValueError

text \<open>
  The remote application is a parameter of the model. Each of its three calls is told
  the calls made before it and either fails with one of the four errors the script
  catches or succeeds.

  Modelled from the spec: \<^verbatim>\<open>terragen_rpc\<close> is not part of the repository; the result of
  \<^verbatim>\<open>get_param\<close> is an integer, as the specification's Gateway contract has it
  (\<^verbatim>\<open>GetParam(name: string) -> integer\<close>).
\<close>

record gateway =
  tg_root :: "rpc_call list \<Rightarrow> rpc_error option"
  get_param :: "rpc_call list \<Rightarrow> string \<Rightarrow> rpc_error + int"
  set_param :: "rpc_call list \<Rightarrow> string \<Rightarrow> int \<Rightarrow> rpc_error option"

text \<open>
  A \<^verbatim>\<open>StringVar\<close> is a variable of the toolkit's interpreter. After \<^verbatim>\<open>set\<close> with a text
  it holds the text; after \<^verbatim>\<open>set\<close> with an integer it holds the integer, of any size,
  and the entry shows its decimal numeral. \<^verbatim>\<open>get\<close> returns a text as it is; any other
  value \<open>n\<close> it returns as \<^verbatim>\<open>str(n)\<close>, which for an integer raises \<^verbatim>\<open>ValueError\<close> beyond
  the digit limit.
\<close>

datatype tcl_value = TclStr str | TclInt int

definition tcl_string :: "tcl_value \<Rightarrow> str" where
  "tcl_string v = (case v of TclStr t \<Rightarrow> t | TclInt n \<Rightarrow> decimal n)"

definition StringVar_get :: "tcl_value \<Rightarrow> str option" where
  "StringVar_get v = (case v of TclStr t \<Rightarrow> Some t | TclInt n \<Rightarrow> py_str n)"

record state =
  current_frame_at_startup :: tcl_value
  current_frame_var :: tcl_value
  start_frame_var :: tcl_value
  end_frame_var :: tcl_value
  ERROR_SHOWN :: bool
  popups :: "(string \<times> string) list"   \<comment> \<open>the warnings shown, title and message, oldest first\<close>
  rpc_log :: "rpc_call list"              \<comment> \<open>the remote calls made, oldest first\<close>
  stdout :: "string list"
  uncaught :: "py_exception list"         \<comment> \<open>exceptions that left a handler\<close>

definition entry_text :: "state \<Rightarrow> str" where
  \<comment> \<open>the text the entry field shows\<close>
  "entry_text s = tcl_string (current_frame_var s)"

definition snapshot_text :: "state \<Rightarrow> str" where
  "snapshot_text s = tcl_string (current_frame_at_startup s)"

definition module_state :: state where
  \<comment> \<open>the module's variables before \<^verbatim>\<open>on_startup()\<close>: a fresh \<^verbatim>\<open>StringVar\<close> holds the
      empty text, and \<^verbatim>\<open>current_frame_var\<close> is set to the text 1\<close>
  "module_state =
     \<lparr> current_frame_at_startup = TclStr [],
       current_frame_var = TclStr (ascii ''1''),
       start_frame_var = TclStr [],
       end_frame_var = TclStr [],
       ERROR_SHOWN = False,
       popups = [],
       rpc_log = [],
       stdout = [],
       uncaught = [] \<rparr>"

definition script_name :: string where
  \<comment> \<open>\<^verbatim>\<open>os.path.basename(__file__)\<close>\<close>
  "script_name = ''tg_go_to_frame.py''"

definition popup_warning :: "string \<Rightarrow> string \<Rightarrow> state \<Rightarrow> state" where
  "popup_warning title message s = s\<lparr>popups := popups s @ [(title, message)]\<rparr>"

definition raise_ValueError :: "state \<Rightarrow> state" where
  \<comment> \<open>a \<^verbatim>\<open>ValueError\<close> that no \<^verbatim>\<open>except\<close> clause catches ends the handler\<close>
  "raise_ValueError s = s\<lparr>uncaught := uncaught s @ [ValueError]\<rparr>"

definition rpc_message :: "rpc_error \<Rightarrow> string" where
  "rpc_message e =
     (case e of
        ConnectionError d \<Rightarrow> ''Terragen RPC connection error'' @ d
      | TimeoutError d \<Rightarrow> ''Terragen RPC timeout error'' @ d
      | ReplyError d \<Rightarrow> ''Terragen RPC reply error'' @ d
      | ApiError trace \<Rightarrow> ''Terragen RPC API error'' @ trace)"

definition rpc_warning :: "rpc_error \<Rightarrow> state \<Rightarrow> state" where
  \<comment> \<open>the four \<^verbatim>\<open>except\<close> clauses, the same in \<^verbatim>\<open>on_go_to\<close> and \<^verbatim>\<open>on_startup\<close>\<close>
  "rpc_warning e s = popup_warning script_name (rpc_message e) s"

definition call_root :: "gateway \<Rightarrow> state \<Rightarrow> rpc_error option \<times> state" where
  "call_root gw s = (tg_root gw (rpc_log s), s\<lparr>rpc_log := rpc_log s @ [Root]\<rparr>)"

definition call_get_param :: "gateway \<Rightarrow> string \<Rightarrow> state \<Rightarrow> (rpc_error + int) \<times> state" where
  "call_get_param gw name s =
     (get_param gw (rpc_log s) name, s\<lparr>rpc_log := rpc_log s @ [GetParam name]\<rparr>)"

definition call_set_param :: "gateway \<Rightarrow> string \<Rightarrow> int \<Rightarrow> state \<Rightarrow> rpc_error option \<times> state" where
  "call_set_param gw name v s =
     (set_param gw (rpc_log s) name v, s\<lparr>rpc_log := rpc_log s @ [SetParam name v]\<rparr>)"

section \<open>The handlers\<close>

definition is_valid_integer :: "str \<Rightarrow> state \<Rightarrow> bool \<times> state" where
  "is_valid_integer value s =
     (case py_int value of
        Some _ \<Rightarrow> (True, s)
      | None \<Rightarrow>
          (False,
           if \<not> ERROR_SHOWN s
           then (popup_warning ''Invalid input'' ''Please enter a valid integer.'' s)
                  \<lparr>ERROR_SHOWN := True\<rparr>
           else s))"

definition on_go_to :: "gateway \<Rightarrow> state \<Rightarrow> state" where
  "on_go_to gw s =
     (case StringVar_get (current_frame_var s) of
        None \<Rightarrow> raise_ValueError s
      | Some current_frame \<Rightarrow>
          (let (ok, s1) = is_valid_integer current_frame s
           in if ok then
                (let s2 = s1\<lparr>ERROR_SHOWN := False\<rparr> in
                 case call_root gw s2 of
                   (Some e, s3) \<Rightarrow> rpc_warning e s3
                 | (None, s3) \<Rightarrow>
                     (case StringVar_get (current_frame_var s3) of
                        None \<Rightarrow> raise_ValueError s3
                      | Some t \<Rightarrow>
                          (case py_int t of
                             None \<Rightarrow> raise_ValueError s3
                           | Some n \<Rightarrow>
                               (case call_set_param gw ''current_frame'' n s3 of
                                  (Some e, s4) \<Rightarrow> rpc_warning e s4
                                | (None, s4) \<Rightarrow> s4))))
              else s1))"

definition decrease_value :: "state \<Rightarrow> state" where
  "decrease_value s =
     (case StringVar_get (current_frame_var s) of
        None \<Rightarrow> raise_ValueError s
      | Some current_frame \<Rightarrow>
          (let (ok, s1) = is_valid_integer current_frame s
           in if ok then
                (case py_int current_frame of
                   None \<Rightarrow> raise_ValueError s1
                 | Some n \<Rightarrow> s1\<lparr>current_frame_var := TclInt (n - 1)\<rparr>)
              else s1))"

definition increase_value :: "state \<Rightarrow> state" where
  "increase_value s =
     (case StringVar_get (current_frame_var s) of
        None \<Rightarrow> raise_ValueError s
      | Some current_frame \<Rightarrow>
          (let (ok, s1) = is_valid_integer current_frame s
           in if ok then
                (case py_int current_frame of
                   None \<Rightarrow> raise_ValueError s1
                 | Some n \<Rightarrow> s1\<lparr>current_frame_var := TclInt (n + 1)\<rparr>)
              else s1))"

definition set_str :: "int \<Rightarrow> state \<Rightarrow> state" where
  \<comment> \<open>\<^verbatim>\<open>current_frame_var.set(str(n))\<close>\<close>
  "set_str n s =
     (case py_str n of
        None \<Rightarrow> raise_ValueError s
      | Some t \<Rightarrow> s\<lparr>current_frame_var := TclStr t\<rparr>)"

definition on_mouse_wheel :: "int \<Rightarrow> state \<Rightarrow> state" where
  \<comment> \<open>the argument is \<^verbatim>\<open>event.delta\<close>\<close>
  "on_mouse_wheel delta s =
     (case StringVar_get (current_frame_var s) of
        None \<Rightarrow> raise_ValueError s
      | Some current_value \<Rightarrow>
          (let (ok, s1) = is_valid_integer current_value s
           in if ok then
                (if delta > 0 then
                   (case py_int current_value of
                      None \<Rightarrow> raise_ValueError s1
                    | Some n \<Rightarrow> set_str (n + 1) s1)
                 else if delta < 0 then
                   (case py_int current_value of
                      None \<Rightarrow> raise_ValueError s1
                    | Some n \<Rightarrow> set_str (n - 1) s1)
                 else s1)
              else s1\<lparr>stdout := stdout s1 @ [''Invalid input'']\<rparr>))"

definition on_escape :: "state \<Rightarrow> state" where
  "on_escape s =
     (case StringVar_get (current_frame_at_startup s) of
        None \<Rightarrow> raise_ValueError s
      | Some t \<Rightarrow> s\<lparr>current_frame_var := TclStr t\<rparr>)"

definition on_startup :: "gateway \<Rightarrow> state \<Rightarrow> state" where
  "on_startup gw s =
     (case call_root gw s of
        (Some e, s1) \<Rightarrow> rpc_warning e s1
      | (None, s1) \<Rightarrow>
          (case call_get_param gw ''current_frame'' s1 of
             (Inl e, s2) \<Rightarrow> rpc_warning e s2
           | (Inr v, s2) \<Rightarrow>
               (let s3 = s2\<lparr>current_frame_at_startup := TclInt v\<rparr>
                in case StringVar_get (current_frame_at_startup s3) of
                     None \<Rightarrow> raise_ValueError s3
                   | Some t \<Rightarrow>
                       (let s4 = s3\<lparr>current_frame_var := TclStr t\<rparr>
                        in case call_get_param gw ''start_frame'' s4 of
                             (Inl e, s5) \<Rightarrow> rpc_warning e s5
                           | (Inr a, s5) \<Rightarrow>
                               (let s6 = s5\<lparr>start_frame_var := TclInt a\<rparr>
                                in case call_get_param gw ''end_frame'' s6 of
                                     (Inl e, s7) \<Rightarrow> rpc_warning e s7
                                   | (Inr b, s7) \<Rightarrow> s7\<lparr>end_frame_var := TclInt b\<rparr>)))))"

section \<open>The event loop\<close>

text \<open>
  The entry field is bound to five events; \<open>Edit\<close> is the widget itself writing what the
  user typed or pasted into \<^verbatim>\<open>current_frame_var\<close>, its text variable. The loop hands the
  events to the handlers one at a time; an exception that leaves a handler is reported
  and the loop goes on. \<^verbatim>\<open>on_startup()\<close> runs before the loop, at the top level of the
  module, where an exception that leaves it ends the script.
\<close>

datatype event = MouseWheel int | Up | Down | KeyRelease | Escape | Edit str

fun dispatch :: "gateway \<Rightarrow> event \<Rightarrow> state \<Rightarrow> state" where
  "dispatch gw (MouseWheel delta) s = on_mouse_wheel delta s"
| "dispatch gw Up s = increase_value s"
| "dispatch gw Down s = decrease_value s"
| "dispatch gw KeyRelease s = on_go_to gw s"
| "dispatch gw Escape s = on_escape s"
| "dispatch gw (Edit t) s = s\<lparr>current_frame_var := TclStr t\<rparr>"

fun mainloop :: "gateway \<Rightarrow> event list \<Rightarrow> state \<Rightarrow> state" where
  "mainloop gw [] s = s"
| "mainloop gw (e # es) s = mainloop gw es (dispatch gw e s)"

definition main :: "gateway \<Rightarrow> event list \<Rightarrow> state" where
  "main gw es =
     (let s = on_startup gw module_state
      in if uncaught s = [] then mainloop gw es s else s)"

section \<open>Concrete gateways and states\<close>

text \<open>
  A remote application that answers every call (current frame 24, first frame 1, last
  frame 100), one that cannot be reached, one whose \<^verbatim>\<open>start_frame\<close> times out, and one
  that refuses every \<^verbatim>\<open>set_param\<close>.
\<close>

definition gw_up :: gateway where
  "gw_up =
     \<lparr> tg_root = (\<lambda>_. None),
       get_param = (\<lambda>_ name. if name = ''current_frame'' then Inr 24
                               else if name = ''start_frame'' then Inr 1 else Inr 100),
       set_param = (\<lambda>_ _ _. None) \<rparr>"

definition gw_down :: gateway where
  "gw_down =
     \<lparr> tg_root = (\<lambda>_. Some (ConnectionError ''refused'')),
       get_param = (\<lambda>_ _. Inl (ConnectionError ''refused'')),
       set_param = (\<lambda>_ _ _. Some (ConnectionError ''refused'')) \<rparr>"

definition gw_start_timeout :: gateway where
  "gw_start_timeout =
     \<lparr> tg_root = (\<lambda>_. None),
       get_param = (\<lambda>_ name. if name = ''start_frame'' then Inl (TimeoutError ''timed out'')
                               else Inr 24),
       set_param = (\<lambda>_ _ _. None) \<rparr>"

definition gw_push_fails :: gateway where
  "gw_push_fails =
     \<lparr> tg_root = (\<lambda>_. None),
       get_param = (\<lambda>_ _. Inr 24),
       set_param = (\<lambda>_ _ _. Some (ApiError ''trace'')) \<rparr>"

definition st :: "str \<Rightarrow> bool \<Rightarrow> state" where
  \<comment> \<open>the state after a successful start at frame 24, with the given text in the field
      and the given value of the flag\<close>
  "st t shown =
     (on_startup gw_up module_state)\<lparr>current_frame_var := TclStr t, ERROR_SHOWN := shown\<rparr>"

definition nines :: str where
  \<comment> \<open>the longest text of nines that \<^verbatim>\<open>int\<close> accepts\<close>
  "nines = replicate int_max_str_digits 57"

definition invalid_result :: "state \<Rightarrow> state" where
  \<comment> \<open>what the handlers do up to the validation when the text of the field is invalid:
      \<^verbatim>\<open>get\<close> raises, or \<^verbatim>\<open>is_valid_integer\<close> rejects the text\<close>
  "invalid_result s =
     (case StringVar_get (current_frame_var s) of
        None \<Rightarrow> raise_ValueError s
      | Some t \<Rightarrow> snd (is_valid_integer t s))"


section \<open>Runs of invalid input\<close>

definition invalid_input_warnings :: "state \<Rightarrow> nat" where
  \<comment> \<open>how many of the warnings shown so far are the one of \<^verbatim>\<open>is_valid_integer\<close>\<close>
  "invalid_input_warnings s = length (filter (\<lambda>p. fst p = ''Invalid input'') (popups s))"

definition valid_text :: "state \<Rightarrow> bool" where
  "valid_text s = (py_int (entry_text s) \<noteq> None)"

fun invalid_between :: "gateway \<Rightarrow> event list \<Rightarrow> state \<Rightarrow> bool" where
  \<comment> \<open>the text is invalid in every state of the run but, possibly, the first and the last\<close>
  "invalid_between gw [] s = True"
| "invalid_between gw [e] s = True"
| "invalid_between gw (e # e' # es) s =
     (\<not> valid_text (dispatch gw e s) \<and> invalid_between gw (e' # es) (dispatch gw e s))"

section \<open>What \<^verbatim>\<open>int\<close> accepts\<close>

lemma digit_not_special:
  "is_digit c \<Longrightarrow> c \<noteq> 95 \<and> c \<noteq> 43 \<and> c \<noteq> 45 \<and> \<not> Py_ISSPACE c \<and> c < 127"
  by (auto simp: is_digit_def Py_ISSPACE_def)

lemma space_not_special: "Py_ISSPACE c \<Longrightarrow> c \<noteq> 95 \<and> \<not> is_digit c"
  by (auto simp: is_digit_def Py_ISSPACE_def)

lemma sign_not_special: "c = 43 \<or> c = 45 \<Longrightarrow> \<not> is_digit c \<and> \<not> Py_ISSPACE c"
  by (auto simp: is_digit_def Py_ISSPACE_def)

lemma digit_groups_nonempty: "digit_groups g \<Longrightarrow> g \<noteq> []"
  by auto

lemma digit_groups_hd: "digit_groups g \<Longrightarrow> is_digit (hd g)"
  by (induction g rule: digit_groups.induct) auto

lemma digit_groups_last: "digit_groups g \<Longrightarrow> is_digit (last g)"
  by (induction g rule: digit_groups.induct) (auto split: if_splits)

lemma digit_groups_Cons: "is_digit c \<Longrightarrow> digit_groups g \<Longrightarrow> digit_groups (c # g)"
  using digit_groups_hd [of g] digit_not_special [of "hd g"] by (cases g) auto

lemma scan_digits_stop:
  "prev \<noteq> 95 \<Longrightarrow> \<forall>x\<in>set w. Py_ISSPACE x \<Longrightarrow> scan_digits prev n acc w = Some (n, acc, w)"
  by (cases w) (auto dest: space_not_special)

lemma scan_digits_groups:
  "digit_groups g \<Longrightarrow> \<forall>x\<in>set w. Py_ISSPACE x \<Longrightarrow>
     \<exists>v. scan_digits prev n acc (g @ w) = Some (n + length (filter is_digit g), v, w)"
proof (induction g arbitrary: prev n acc rule: digit_groups.induct)
  case 1
  then show ?case by simp
next
  case (2 c)
  then have "c \<noteq> 95" using digit_not_special by auto
  with 2 show ?case by (simp add: scan_digits_stop)
next
  case (3 c d cs)
  then have c: "is_digit c" "c \<noteq> 95" using digit_not_special by auto
  let ?acc = "10 * acc + digit_value c"
  show ?case
  proof (cases "d = 95")
    case True
    with 3 have g: "digit_groups cs" by simp
    from "3.IH"(1) [OF True g "3.prems"(2), of 95 "Suc n" ?acc]
    obtain v where
      "scan_digits 95 (Suc n) ?acc (cs @ w) = Some (Suc n + length (filter is_digit cs), v, w)"
      by blast
    moreover have "cs \<noteq> []" "is_digit (hd cs)" using g digit_groups_hd by auto
    moreover have "\<not> is_digit d" using True by (simp add: is_digit_def)
    ultimately show ?thesis using c True
      by (cases cs) (auto dest: digit_not_special)
  next
    case False
    with 3 have g: "digit_groups (d # cs)" by simp
    from "3.IH"(2) [OF False g "3.prems"(2), of c "Suc n" ?acc]
    obtain v where "scan_digits c (Suc n) ?acc ((d # cs) @ w) =
        Some (Suc n + length (filter is_digit (d # cs)), v, w)"
      by blast
    moreover have "scan_digits prev n acc ((c # d # cs) @ w) =
        scan_digits c (Suc n) ?acc ((d # cs) @ w)"
      using c by simp
    moreover have "length (filter is_digit (c # d # cs)) = Suc (length (filter is_digit (d # cs)))"
      using c by simp
    ultimately show ?thesis by (auto simp del: scan_digits.simps filter.simps)
  qed
qed

lemma scan_digits_progress:
  "scan_digits prev n acc s = Some (k, v, rest) \<Longrightarrow> n < k \<Longrightarrow>
     s \<noteq> [] \<and> (hd s = 95 \<or> is_digit (hd s))"
  by (cases s) (auto split: if_splits)

lemma scan_digits_after_underscore:
  "scan_digits 95 n acc s = Some r \<Longrightarrow> s \<noteq> [] \<and> is_digit (hd s)"
  by (cases s) (auto split: if_splits)

lemma scan_digits_parts:
  "scan_digits prev n acc s = Some (k, v, rest) \<Longrightarrow> s \<noteq> [] \<Longrightarrow> is_digit (hd s) \<Longrightarrow>
     \<exists>g. s = g @ rest \<and> digit_groups g \<and> k = n + length (filter is_digit g)"
proof (induction s arbitrary: prev n acc rule: digit_groups.induct)
  case 1
  then show ?case by simp
next
  case (2 c)
  then have c: "is_digit c" "c \<noteq> 95" using digit_not_special by auto
  with 2 have "rest = [] \<and> k = Suc n" by (auto split: if_splits)
  with c show ?case by auto
next
  case (3 c d cs)
  then have c: "is_digit c" "c \<noteq> 95" using digit_not_special by auto
  let ?acc = "10 * acc + digit_value c"
  show ?case
  proof (cases "d = 95")
    case True
    then have nd: "\<not> is_digit d" by (simp add: is_digit_def)
    from True "3.prems"(1) c have sc: "scan_digits 95 (Suc n) ?acc cs = Some (k, v, rest)"
      by simp
    from scan_digits_after_underscore [OF sc] have "cs \<noteq> []" "is_digit (hd cs)" by auto
    from "3.IH"(1) [OF True sc this] obtain g where
      "cs = g @ rest" "digit_groups g" "k = Suc n + length (filter is_digit g)"
      by blast
    then have "c # d # cs = (c # d # g) @ rest \<and> digit_groups (c # d # g) \<and>
        k = n + length (filter is_digit (c # d # g))"
      using c True nd by simp
    then show ?thesis by blast
  next
    case False
    show ?thesis
    proof (cases "is_digit d")
      case True
      from "3.prems"(1) c False have sc: "scan_digits c (Suc n) ?acc (d # cs) = Some (k, v, rest)"
        by simp
      from "3.IH"(2) [OF False sc] True obtain g where
        g: "d # cs = g @ rest" "digit_groups g" "k = Suc n + length (filter is_digit g)"
        by auto
      then have "c # d # cs = (c # g) @ rest \<and> digit_groups (c # g) \<and>
          k = n + length (filter is_digit (c # g))"
        using c digit_groups_Cons by simp
      then show ?thesis by blast
    next
      case nd: False
      with "3.prems"(1) c False have "rest = d # cs \<and> k = Suc n" by simp
      then have "c # d # cs = [c] @ rest \<and> digit_groups [c] \<and>
          k = n + length (filter is_digit [c])"
        using c by simp
      then show ?thesis by blast
    qed
  qed
qed

lemma snd_take_sign: "snd (take_sign s) = drop_sign s"
  by (cases s) (auto simp: take_sign_def drop_sign_def)

lemma digit_groups_has_digit: "digit_groups g \<Longrightarrow> 0 < length (filter is_digit g)"
  using digit_groups_hd [of g] by (cases g) auto

lemma PyLong_FromString_accepts:
  "PyLong_FromString t \<noteq> None \<longleftrightarrow>
     (\<exists>g w. drop_sign (dropWhile Py_ISSPACE t) = g @ w \<and> digit_groups g \<and>
            (\<forall>x\<in>set w. Py_ISSPACE x) \<and> length (filter is_digit g) \<le> int_max_str_digits)"
  (is "?lhs \<longleftrightarrow> ?rhs")
proof
  obtain sg b where tb: "take_sign (dropWhile Py_ISSPACE t) = (sg, b)"
    by (cases "take_sign (dropWhile Py_ISSPACE t)")
  then have b: "drop_sign (dropWhile Py_ISSPACE t) = b"
    using snd_take_sign [of "dropWhile Py_ISSPACE t"] by simp
  {
    assume ?lhs
    with tb have nu: "take 1 b \<noteq> [95]"
      by (auto simp: PyLong_FromString_def split: if_splits)
    from \<open>?lhs\<close> tb nu obtain k v rest where
      sc: "scan_digits 0 0 0 b = Some (k, v, rest)" and k: "k \<noteq> 0"
      and lim: "k \<le> int_max_str_digits"
      and rest: "dropWhile Py_ISSPACE rest = []"
      by (auto simp: PyLong_FromString_def split: if_splits option.splits)
    from scan_digits_progress [OF sc] k have "b \<noteq> []" "hd b = 95 \<or> is_digit (hd b)"
      by auto
    with nu have "b \<noteq> []" "is_digit (hd b)" by (cases b; auto)+
    from scan_digits_parts [OF sc this] obtain g where
      "b = g @ rest" "digit_groups g" "k = length (filter is_digit g)"
      by auto
    moreover from rest have "\<forall>x\<in>set rest. Py_ISSPACE x"
      by simp
    ultimately show ?rhs using b lim by auto
  }
  {
    assume ?rhs
    with b obtain g w where bg: "b = g @ w" and g: "digit_groups g"
      and w: "\<forall>x\<in>set w. Py_ISSPACE x"
      and lim: "length (filter is_digit g) \<le> int_max_str_digits"
      by auto
    from g have "g \<noteq> []" "is_digit (hd g)" using digit_groups_hd by auto
    then have nu: "take 1 b \<noteq> [95]" using bg digit_not_special [of "hd g"] by (cases g) auto
    from scan_digits_groups [OF g w, of 0 0 0] obtain v where
      "scan_digits 0 0 0 b = Some (length (filter is_digit g), v, w)"
      using bg by auto
    moreover from w have "dropWhile Py_ISSPACE w = []" by simp
    moreover have "length (filter is_digit g) \<noteq> 0" using digit_groups_has_digit [OF g] by simp
    ultimately show ?lhs using tb nu lim by (simp add: PyLong_FromString_def)
  }
qed

lemma strip_tail:
  "x \<noteq> [] \<Longrightarrow> \<not> Py_ISSPACE (last x) \<Longrightarrow> \<forall>c\<in>set w. Py_ISSPACE c \<Longrightarrow>
     rev (dropWhile Py_ISSPACE (rev (x @ w))) = x"
proof -
  assume x: "x \<noteq> []" "\<not> Py_ISSPACE (last x)" and w: "\<forall>c\<in>set w. Py_ISSPACE c"
  from w have "\<And>c. c \<in> set (rev w) \<Longrightarrow> Py_ISSPACE c" by simp
  then have "dropWhile Py_ISSPACE (rev w @ rev x) = dropWhile Py_ISSPACE (rev x)"
    by (rule dropWhile_append2)
  then have "dropWhile Py_ISSPACE (rev (x @ w)) = dropWhile Py_ISSPACE (rev x)"
    by simp
  also from x have "\<dots> = rev x"
    by (cases x rule: rev_cases) auto
  finally show ?thesis by simp
qed

lemma strip_split:
  "\<exists>w. dropWhile Py_ISSPACE u = strip u @ w \<and> (\<forall>c\<in>set w. Py_ISSPACE c)"
proof -
  let ?u = "dropWhile Py_ISSPACE u"
  have "rev ?u = takeWhile Py_ISSPACE (rev ?u) @ dropWhile Py_ISSPACE (rev ?u)"
    by simp
  then have "?u = rev (dropWhile Py_ISSPACE (rev ?u)) @ rev (takeWhile Py_ISSPACE (rev ?u))"
    by (simp only: rev_swap rev_append)
  moreover have "\<forall>c\<in>set (rev (takeWhile Py_ISSPACE (rev ?u))). Py_ISSPACE c"
    by (auto dest: set_takeWhileD)
  ultimately show ?thesis unfolding strip_def by blast
qed

lemma filter_digit_spaces: "\<forall>c\<in>set w. Py_ISSPACE c \<Longrightarrow> filter is_digit w = []"
  by (induction w) (auto dest: space_not_special)

lemma filter_digit_drop_sign: "filter is_digit (drop_sign s) = filter is_digit s"
  by (cases s) (auto simp: drop_sign_def is_digit_def)

lemma filter_digit_dropWhile:
  "filter is_digit (dropWhile Py_ISSPACE s) = filter is_digit s"
  by (induction s) (auto dest: space_not_special)

lemma digits_of_parts:
  "drop_sign (dropWhile Py_ISSPACE t) = g @ w \<Longrightarrow> \<forall>x\<in>set w. Py_ISSPACE x \<Longrightarrow>
     filter is_digit t = filter is_digit g"
proof -
  assume a: "drop_sign (dropWhile Py_ISSPACE t) = g @ w" and w: "\<forall>x\<in>set w. Py_ISSPACE x"
  have "filter is_digit t = filter is_digit (drop_sign (dropWhile Py_ISSPACE t))"
    by (simp only: filter_digit_drop_sign filter_digit_dropWhile)
  also have "\<dots> = filter is_digit g" using w by (simp add: a filter_digit_spaces)
  finally show ?thesis .
qed

lemma PyLong_FromString_literal: "PyLong_FromString t \<noteq> None \<longleftrightarrow> integer_literal t"
proof
  assume "PyLong_FromString t \<noteq> None"
  then obtain g w where b: "drop_sign (dropWhile Py_ISSPACE t) = g @ w" and g: "digit_groups g"
    and w: "\<forall>x\<in>set w. Py_ISSPACE x"
    and lim: "length (filter is_digit g) \<le> int_max_str_digits"
    unfolding PyLong_FromString_accepts by blast
  from g have gl: "g \<noteq> []" "\<not> Py_ISSPACE (last g)" "is_digit (hd g)"
    using digit_groups_last [of g] digit_groups_hd [of g] digit_not_special by auto
  from digits_of_parts [OF b w] lim have cnt: "length (filter is_digit t) \<le> int_max_str_digits"
    by simp
  let ?u = "dropWhile Py_ISSPACE t"
  have "digit_groups (drop_sign (strip t))"
  proof (cases "\<exists>c cs. ?u = c # cs \<and> (c = 43 \<or> c = 45)")
    case True
    then obtain c where c: "?u = (c # g) @ w" "c = 43 \<or> c = 45"
      using b by (auto simp: drop_sign_def)
    have "strip t = c # g"
      unfolding strip_def c(1) using gl w by (intro strip_tail) auto
    with c g show ?thesis by (auto simp: drop_sign_def)
  next
    case False
    then have "drop_sign ?u = ?u" by (auto simp: drop_sign_def split: list.splits)
    with b have u: "?u = g @ w" by simp
    have "strip t = g"
      unfolding strip_def u using gl w by (intro strip_tail) auto
    moreover have "drop_sign g = g"
      using gl digit_not_special [of "hd g"] by (cases g) (auto simp: drop_sign_def)
    ultimately show ?thesis using g by simp
  qed
  with cnt show "integer_literal t" by (simp add: integer_literal_def)
next
  assume "integer_literal t"
  then have g: "digit_groups (drop_sign (strip t))"
    and cnt: "length (filter is_digit t) \<le> int_max_str_digits"
    by (simp_all add: integer_literal_def)
  then have ne: "strip t \<noteq> []" by (auto simp: drop_sign_def)
  from strip_split obtain w where
    w: "dropWhile Py_ISSPACE t = strip t @ w" "\<forall>c\<in>set w. Py_ISSPACE c"
    by blast
  from ne have b: "drop_sign (strip t @ w) = drop_sign (strip t) @ w"
    by (cases "strip t") (auto simp: drop_sign_def)
  then have b': "drop_sign (dropWhile Py_ISSPACE t) = drop_sign (strip t) @ w"
    by (simp only: w(1))
  from digits_of_parts [OF b' w(2)] cnt
  have "length (filter is_digit (drop_sign (strip t))) \<le> int_max_str_digits" by simp
  with b' g w(2) show "PyLong_FromString t \<noteq> None"
    unfolding PyLong_FromString_accepts by blast
qed

lemma py_int_literal: "py_int u \<noteq> None \<longleftrightarrow> integer_literal (map to_ascii u)"
  by (simp only: py_int_def PyLong_FromString_literal)

section \<open>Numerals and the digit limit\<close>

lemma digit_char: "d < 10 \<Longrightarrow> is_digit (48 + d) \<and> digit_value (48 + d) = d"
  by (simp add: is_digit_def digit_value_def)

lemma str_digits_digits: "str_digits n \<noteq> [] \<and> (\<forall>c\<in>set (str_digits n). is_digit c)"
proof (induction n rule: str_digits.induct)
  case (1 n)
  show ?case
  proof (cases "n < 10")
    case True
    then show ?thesis using digit_char [of n] by (simp add: str_digits.simps [of n])
  next
    case False
    with 1 show ?thesis using digit_char [of "n mod 10"]
      by (simp add: str_digits.simps [of n])
  qed
qed

lemma str_digits_value: "foldl dec_step 0 (str_digits n) = n"
proof (induction n rule: str_digits.induct)
  case (1 n)
  show ?case
  proof (cases "n < 10")
    case True
    then show ?thesis using digit_char [of n]
      by (simp add: str_digits.simps [of n] dec_step_def)
  next
    case False
    with 1 show ?thesis using digit_char [of "n mod 10"]
      by (simp add: str_digits.simps [of n] dec_step_def)
  qed
qed

lemma scan_digits_all:
  "\<forall>c\<in>set xs. is_digit c \<Longrightarrow> xs \<noteq> [] \<Longrightarrow>
     scan_digits prev n acc xs = Some (n + length xs, foldl dec_step acc xs, [])"
proof (induction xs arbitrary: prev n acc)
  case Nil
  then show ?case by simp
next
  case (Cons c cs)
  then have c: "is_digit c" "c \<noteq> 95" using digit_not_special by auto
  show ?case
  proof (cases cs)
    case Nil
    with c show ?thesis by (simp add: dec_step_def)
  next
    case (Cons d ds)
    with Cons.IH [of c "Suc n" "dec_step acc c"] Cons.prems c show ?thesis
      by (simp add: dec_step_def del: scan_digits.simps) (simp add: dec_step_def)
  qed
qed

lemma PyLong_FromString_digits:
  assumes "\<forall>c\<in>set xs. is_digit c" and "xs \<noteq> []"
  shows "PyLong_FromString xs =
           (if length xs > int_max_str_digits then None else Some (int (foldl dec_step 0 xs)))"
proof -
  from assms have hd: "is_digit (hd xs)" by (cases xs) auto
  from assms(2) hd digit_not_special [of "hd xs"] have "dropWhile Py_ISSPACE xs = xs"
    by (cases xs) auto
  moreover from assms(2) hd digit_not_special [of "hd xs"] have "take_sign xs = (1, xs)"
    by (cases xs) (auto simp: take_sign_def)
  moreover from assms(2) hd digit_not_special [of "hd xs"] have "take 1 xs \<noteq> [95]"
    by (cases xs) auto
  moreover have "scan_digits 0 0 0 xs = Some (length xs, foldl dec_step 0 xs, [])"
    using scan_digits_all [OF assms, of 0 0 0] by simp
  ultimately show ?thesis using assms(2) by (simp add: PyLong_FromString_def)
qed

lemma PyLong_FromString_minus:
  assumes "\<forall>c\<in>set xs. is_digit c" and "xs \<noteq> []"
  shows "PyLong_FromString (45 # xs) =
           (if length xs > int_max_str_digits then None else Some (- int (foldl dec_step 0 xs)))"
proof -
  from assms have hd: "is_digit (hd xs)" by (cases xs) auto
  have "dropWhile Py_ISSPACE (45 # xs) = 45 # xs"
    by (simp add: Py_ISSPACE_def)
  moreover have "take_sign (45 # xs) = (- 1, xs)"
    by (simp add: take_sign_def)
  moreover from assms(2) hd digit_not_special [of "hd xs"] have "take 1 xs \<noteq> [95]"
    by (cases xs) auto
  moreover have "scan_digits 0 0 0 xs = Some (length xs, foldl dec_step 0 xs, [])"
    using scan_digits_all [OF assms, of 0 0 0] by simp
  ultimately show ?thesis using assms(2) by (simp add: PyLong_FromString_def)
qed

lemma to_ascii_ascii: "c < 127 \<Longrightarrow> to_ascii c = c"
  by (simp add: to_ascii_def)

lemma map_to_ascii_digits: "\<forall>c\<in>set xs. is_digit c \<Longrightarrow> map to_ascii xs = xs"
  by (induction xs) (auto simp: to_ascii_ascii dest: digit_not_special)

lemma py_int_digits:
  "\<forall>c\<in>set xs. is_digit c \<Longrightarrow> xs \<noteq> [] \<Longrightarrow>
     py_int xs = (if length xs > int_max_str_digits then None else Some (int (foldl dec_step 0 xs)))"
proof -
  assume a: "\<forall>c\<in>set xs. is_digit c" and b: "xs \<noteq> []"
  from a have "map to_ascii xs = xs" by (rule map_to_ascii_digits)
  with PyLong_FromString_digits [OF a b] show ?thesis by (simp add: py_int_def)
qed

lemma py_int_decimal:
  "py_int (decimal k) =
     (if length (str_digits (nat \<bar>k\<bar>)) > int_max_str_digits then None else Some k)"
proof -
  have d: "\<forall>c\<in>set (str_digits m). is_digit c" "str_digits m \<noteq> []" for m
    using str_digits_digits [of m] by auto
  have m: "map to_ascii (str_digits m) = str_digits m" for m
    using d(1) by (rule map_to_ascii_digits)
  have minus: "to_ascii 45 = 45" by (simp add: to_ascii_def)
  show ?thesis
  proof (cases "k < 0")
    case True
    then have "nat \<bar>k\<bar> = nat (- k)" by simp
    with True show ?thesis
      by (simp add: py_int_def decimal_def m minus PyLong_FromString_minus [OF d]
          str_digits_value)
  next
    case False
    then have "nat \<bar>k\<bar> = nat k" by simp
    with False show ?thesis
      by (simp add: py_int_def decimal_def m PyLong_FromString_digits [OF d] str_digits_value)
  qed
qed

lemma py_int_py_str: "py_str k = Some t \<Longrightarrow> py_int t = Some k"
  using py_int_decimal [of k] by (auto simp: py_str_def split: if_splits)

lemma py_int_decimal_Some: "py_int (decimal k) = Some n \<Longrightarrow> n = k \<and> py_str k = Some (decimal k)"
  using py_int_decimal [of k] by (auto simp: py_str_def split: if_splits)

lemma py_str_None: "py_str k = None \<Longrightarrow> py_int (decimal k) = None"
  using py_int_decimal [of k] by (auto simp: py_str_def split: if_splits)

lemma py_str_Some: "py_str k = Some t \<Longrightarrow> t = decimal k"
  by (auto simp: py_str_def split: if_splits)

subsection \<open>The longest text of nines\<close>

lemma foldl_nines: "Suc (foldl dec_step a (replicate k 57)) = (Suc a) * 10 ^ k"
  by (induction k arbitrary: a) (simp_all add: dec_step_def digit_value_def algebra_simps)

lemma py_int_nines: "py_int nines = Some (10 ^ int_max_str_digits - 1)"
proof -
  have ne: "nines \<noteq> []" by (simp add: nines_def int_max_str_digits_def)
  have dg: "\<forall>c\<in>set nines. is_digit c" by (simp add: nines_def is_digit_def)
  have "Suc (foldl dec_step 0 nines) = 10 ^ int_max_str_digits"
    using foldl_nines [of 0 int_max_str_digits] by (simp add: nines_def)
  then have "int (Suc (foldl dec_step 0 nines)) = int (10 ^ int_max_str_digits)"
    by (rule arg_cong)
  then have "int (foldl dec_step 0 nines) = 10 ^ int_max_str_digits - 1"
    by simp
  with py_int_digits [OF dg ne] show ?thesis by (simp add: nines_def)
qed

lemma length_str_digits_power: "length (str_digits (10 ^ k)) = Suc k"
proof (induction k)
  case 0
  show ?case by (subst str_digits.simps) simp
next
  case (Suc k)
  have "\<not> (10::nat) ^ Suc k < 10" by simp
  then have "str_digits (10 ^ Suc k) = str_digits (10 ^ Suc k div 10) @ [48 + 10 ^ Suc k mod 10]"
    by (subst str_digits.simps) simp
  with Suc show ?case by simp
qed

lemma py_str_power: "py_str (10 ^ int_max_str_digits) = None"
proof -
  have "nat \<bar>10 ^ int_max_str_digits :: int\<bar> = 10 ^ int_max_str_digits"
    by (simp add: nat_power_eq)
  then have "length (str_digits (nat \<bar>10 ^ int_max_str_digits :: int\<bar>)) = Suc int_max_str_digits"
    by (simp only: length_str_digits_power)
  then show ?thesis by (simp only: py_str_def) simp
qed

subsection \<open>The size of a parsed integer\<close>

lemma scan_digits_bound:
  "scan_digits prev k acc s = Some (k', v, rest) \<Longrightarrow> acc < 10 ^ k \<Longrightarrow> v < 10 ^ k'"
proof (induction s arbitrary: prev k acc)
  case Nil
  then show ?case by (auto split: if_splits)
next
  case (Cons c cs)
  show ?case
  proof (cases "c = 95")
    case True
    with Cons.prems have "scan_digits c k acc cs = Some (k', v, rest)"
      by (auto split: if_splits)
    from Cons.IH [OF this Cons.prems(2)] show ?thesis .
  next
    case False
    show ?thesis
    proof (cases "is_digit c")
      case True
      with False Cons.prems have sc:
        "scan_digits c (Suc k) (10 * acc + digit_value c) cs = Some (k', v, rest)"
        by simp
      from True have "digit_value c \<le> 9" by (auto simp: is_digit_def digit_value_def)
      with Cons.prems(2) have "10 * acc + digit_value c < 10 ^ Suc k" by simp
      from Cons.IH [OF sc this] show ?thesis .
    next
      case nd: False
      with False Cons.prems have "k' = k \<and> v = acc" by (auto split: if_splits)
      with Cons.prems(2) show ?thesis by simp
    qed
  qed
qed

lemma take_sign_sign: "fst (take_sign s) = 1 \<or> fst (take_sign s) = - 1"
  by (cases s) (auto simp: take_sign_def)

lemma PyLong_FromString_bound:
  assumes "PyLong_FromString t = Some i"
  shows "\<bar>i\<bar> < 10 ^ int_max_str_digits"
proof -
  obtain sg b where tb: "take_sign (dropWhile Py_ISSPACE t) = (sg, b)"
    by (cases "take_sign (dropWhile Py_ISSPACE t)")
  with take_sign_sign [of "dropWhile Py_ISSPACE t"] have sg: "sg = 1 \<or> sg = - 1" by simp
  from assms tb obtain k v rest where
    sc: "scan_digits 0 0 0 b = Some (k, v, rest)" and lim: "k \<le> int_max_str_digits"
    and i: "i = sg * int v"
    by (auto simp: PyLong_FromString_def split: if_splits option.splits)
  from scan_digits_bound [OF sc] have "v < 10 ^ k" by simp
  also from lim have "(10::nat) ^ k \<le> 10 ^ int_max_str_digits"
    by (simp add: power_increasing)
  finally have "int v < int (10 ^ int_max_str_digits)" by (simp only: of_nat_less_iff)
  then have "int v < 10 ^ int_max_str_digits" by simp
  with sg i show ?thesis by auto
qed

lemma py_int_bound: "py_int t = Some i \<Longrightarrow> \<bar>i\<bar> < 10 ^ int_max_str_digits"
  unfolding py_int_def by (rule PyLong_FromString_bound)

lemma length_str_digits:
  "0 < k \<Longrightarrow> length (str_digits m) \<le> k \<longleftrightarrow> m < 10 ^ k"
proof (induction m arbitrary: k rule: str_digits.induct)
  case (1 m)
  show ?case
  proof (cases "m < 10")
    case True
    have "(10::nat) ^ 1 \<le> 10 ^ k" using "1.prems" by (intro power_increasing) simp_all
    with True have "m < 10 ^ k" by simp
    with True "1.prems" show ?thesis by (simp add: str_digits.simps [of m])
  next
    case False
    then have len: "length (str_digits m) = Suc (length (str_digits (m div 10)))"
      by (simp add: str_digits.simps [of m])
    have ne: "str_digits (m div 10) \<noteq> []" using str_digits_digits by blast
    show ?thesis
    proof (cases "k = 1")
      case True
      with False ne show ?thesis by (simp add: len)
    next
      case k: False
      with "1.prems" obtain j where j: "k = Suc j" "0 < j" by (cases k) auto
      from "1.IH" [OF False j(2)] have "length (str_digits (m div 10)) \<le> j \<longleftrightarrow> m div 10 < 10 ^ j" .
      also have "\<dots> \<longleftrightarrow> m < 10 ^ j * 10" by (simp add: div_less_iff_less_mult)
      finally show ?thesis by (simp add: len j(1) mult.commute)
    qed
  qed
qed

lemma py_str_None_iff: "py_str i = None \<longleftrightarrow> 10 ^ int_max_str_digits \<le> \<bar>i\<bar>"
proof -
  have pos: "0 < int_max_str_digits" by (simp add: int_max_str_digits_def)
  have "py_str i = None \<longleftrightarrow> \<not> length (str_digits (nat \<bar>i\<bar>)) \<le> int_max_str_digits"
    by (simp add: py_str_def)
  also have "\<dots> \<longleftrightarrow> \<not> nat \<bar>i\<bar> < 10 ^ int_max_str_digits"
    by (simp only: length_str_digits [OF pos])
  also have "\<dots> \<longleftrightarrow> 10 ^ int_max_str_digits \<le> \<bar>i\<bar>"
  proof -
    have "int (nat \<bar>i\<bar>) = \<bar>i\<bar>" by simp
    moreover have "int (10 ^ int_max_str_digits) = 10 ^ int_max_str_digits" by simp
    ultimately have "nat \<bar>i\<bar> < 10 ^ int_max_str_digits \<longleftrightarrow> \<bar>i\<bar> < 10 ^ int_max_str_digits"
      by (metis of_nat_less_iff)
    then show ?thesis by auto
  qed
  finally show ?thesis .
qed

lemma py_str_succ:
  "py_int t = Some n \<Longrightarrow> py_str (n + 1) = None \<longleftrightarrow> n = 10 ^ int_max_str_digits - 1"
  using py_int_bound [of t n] by (auto simp: py_str_None_iff)

lemma py_str_pred:
  "py_int t = Some n \<Longrightarrow> py_str (n - 1) = None \<longleftrightarrow> n = 1 - 10 ^ int_max_str_digits"
  using py_int_bound [of t n] by (auto simp: py_str_None_iff)

lemma set_str_Some:
  "py_str n \<noteq> None \<Longrightarrow> set_str n s = s\<lparr>current_frame_var := TclStr (decimal n)\<rparr>"
  by (auto simp: set_str_def dest: py_str_Some)

lemma set_str_None: "py_str n = None \<Longrightarrow> set_str n s = raise_ValueError s"
  by (simp add: set_str_def)

lemma py_int_decimal_ok: "py_str n \<noteq> None \<Longrightarrow> py_int (decimal n) = Some n"
  using py_int_py_str [of n] py_str_Some [of n] by auto

section \<open>The handlers, by the validity of the text\<close>

lemma is_valid_integer_result: "fst (is_valid_integer t s) = (py_int t \<noteq> None)"
  by (simp add: is_valid_integer_def split: option.splits)

lemma is_valid_integer_valid: "py_int t = Some n \<Longrightarrow> is_valid_integer t s = (True, s)"
  by (simp add: is_valid_integer_def)

lemma is_valid_integer_invalid:
  "py_int t = None \<Longrightarrow>
     is_valid_integer t s =
       (False,
        if ERROR_SHOWN s then s
        else s\<lparr>popups := popups s @ [(''Invalid input'', ''Please enter a valid integer.'')],
               ERROR_SHOWN := True\<rparr>)"
  by (simp add: is_valid_integer_def popup_warning_def)

lemma get_valid: "py_int (tcl_string v) = Some n \<Longrightarrow> StringVar_get v = Some (tcl_string v)"
  by (cases v) (auto simp: tcl_string_def StringVar_get_def dest: py_int_decimal_Some)

lemma get_text: "StringVar_get v = Some t \<Longrightarrow> tcl_string v = t"
  by (cases v) (auto simp: tcl_string_def StringVar_get_def dest: py_str_Some)

lemma get_invalid:
  "py_int (tcl_string v) = None \<Longrightarrow> StringVar_get v = Some t \<Longrightarrow> py_int t = None"
  using get_text [of v t] by simp

lemma field_valid:
  "py_int (entry_text s) = Some n \<Longrightarrow> StringVar_get (current_frame_var s) = Some (entry_text s)"
  unfolding entry_text_def by (rule get_valid)

lemma on_go_to_valid:
  "py_int (entry_text s) = Some n \<Longrightarrow>
     on_go_to gw s =
       (case tg_root gw (rpc_log s) of
          Some e \<Rightarrow>
            s\<lparr>ERROR_SHOWN := False, rpc_log := rpc_log s @ [Root],
              popups := popups s @ [(script_name, rpc_message e)]\<rparr>
        | None \<Rightarrow>
            (case set_param gw (rpc_log s @ [Root]) ''current_frame'' n of
               Some e \<Rightarrow>
                 s\<lparr>ERROR_SHOWN := False,
                   rpc_log := rpc_log s @ [Root, SetParam ''current_frame'' n],
                   popups := popups s @ [(script_name, rpc_message e)]\<rparr>
             | None \<Rightarrow>
                 s\<lparr>ERROR_SHOWN := False,
                   rpc_log := rpc_log s @ [Root, SetParam ''current_frame'' n]\<rparr>))"
  by (simp add: on_go_to_def field_valid is_valid_integer_valid call_root_def call_set_param_def
      rpc_warning_def popup_warning_def split: option.splits)

lemma increase_value_valid:
  "py_int (entry_text s) = Some n \<Longrightarrow>
     increase_value s = s\<lparr>current_frame_var := TclInt (n + 1)\<rparr>"
  by (simp add: increase_value_def field_valid is_valid_integer_valid)

lemma decrease_value_valid:
  "py_int (entry_text s) = Some n \<Longrightarrow>
     decrease_value s = s\<lparr>current_frame_var := TclInt (n - 1)\<rparr>"
  by (simp add: decrease_value_def field_valid is_valid_integer_valid)

lemma on_mouse_wheel_valid:
  "py_int (entry_text s) = Some n \<Longrightarrow>
     on_mouse_wheel delta s =
       (if delta > 0 then set_str (n + 1) s
        else if delta < 0 then set_str (n - 1) s
        else s)"
  by (simp add: on_mouse_wheel_def field_valid is_valid_integer_valid)

lemma invalid_cases:
  "py_int (entry_text s) = None \<Longrightarrow>
     StringVar_get (current_frame_var s) = None \<or>
     (\<exists>t. StringVar_get (current_frame_var s) = Some t \<and> py_int t = None)"
  using get_invalid [of "current_frame_var s"]
  by (cases "StringVar_get (current_frame_var s)") (auto simp: entry_text_def)

lemma on_go_to_invalid:
  "py_int (entry_text s) = None \<Longrightarrow> on_go_to gw s = invalid_result s"
  using invalid_cases [of s]
  by (auto simp: on_go_to_def invalid_result_def is_valid_integer_invalid)

lemma increase_value_invalid:
  "py_int (entry_text s) = None \<Longrightarrow> increase_value s = invalid_result s"
  using invalid_cases [of s]
  by (auto simp: increase_value_def invalid_result_def is_valid_integer_invalid)

lemma decrease_value_invalid:
  "py_int (entry_text s) = None \<Longrightarrow> decrease_value s = invalid_result s"
  using invalid_cases [of s]
  by (auto simp: decrease_value_def invalid_result_def is_valid_integer_invalid)

lemma on_mouse_wheel_invalid:
  "py_int (entry_text s) = None \<Longrightarrow>
     on_mouse_wheel delta s = invalid_result s \<or>
     on_mouse_wheel delta s = (invalid_result s)\<lparr>stdout := stdout s @ [''Invalid input'']\<rparr>"
  using invalid_cases [of s]
  by (auto simp: on_mouse_wheel_def invalid_result_def is_valid_integer_invalid)

lemma invalid_result_frame:
  "current_frame_var (invalid_result s) = current_frame_var s"
  "current_frame_at_startup (invalid_result s) = current_frame_at_startup s"
  "rpc_log (invalid_result s) = rpc_log s"
  by (simp_all add: invalid_result_def raise_ValueError_def is_valid_integer_def
      popup_warning_def split: option.splits)

lemma set_str_frame:
  "rpc_log (set_str n s) = rpc_log s" "ERROR_SHOWN (set_str n s) = ERROR_SHOWN s"
  "popups (set_str n s) = popups s"
  "current_frame_at_startup (set_str n s) = current_frame_at_startup s"
  by (simp_all add: set_str_def raise_ValueError_def split: option.splits)

lemma py_str_24: "py_str 24 = Some (ascii ''24'')"
  by code_simp

lemma st_fields:
  "current_frame_var (st t b) = TclStr t" "entry_text (st t b) = t" "ERROR_SHOWN (st t b) = b"
  "current_frame_at_startup (st t b) = TclInt 24" "popups (st t b) = []"
  "rpc_log (st t b) = [Root, GetParam ''current_frame'', GetParam ''start_frame'', GetParam ''end_frame'']"
  "uncaught (st t b) = []"
  by (simp_all add: st_def entry_text_def tcl_string_def on_startup_def gw_up_def module_state_def
      call_root_def call_get_param_def StringVar_get_def py_str_24)

text \<open>
  Claim C1. The commit handler \<^verbatim>\<open>on_go_to\<close> talks to the remote application exactly when
  the text of the field passes \<^verbatim>\<open>is_valid_integer\<close>. For a valid text the push is
  attempted: \<^verbatim>\<open>tg.root()\<close> is called and, unless that call fails, \<^verbatim>\<open>set_param\<close> with the
  name \<^verbatim>\<open>current_frame\<close> and the integer the text parses to. For an invalid text no remote
  call is made. So every value pushed is the parse of a text that passed the validation.
\<close>

theorem commit_pushes_iff_valid:
  "fst (is_valid_integer t s) = (py_int t \<noteq> None) \<and>
   rpc_log (on_go_to gw s) =
     rpc_log s @
       (case py_int (entry_text s) of
          None \<Rightarrow> []
        | Some n \<Rightarrow>
            (case tg_root gw (rpc_log s) of
               Some e \<Rightarrow> [Root]
             | None \<Rightarrow> [Root, SetParam ''current_frame'' n])) \<and>
   (\<forall>name v. SetParam name v \<in> set (drop (length (rpc_log s)) (rpc_log (on_go_to gw s))) \<longrightarrow>
      name = ''current_frame'' \<and> py_int (entry_text s) = Some v \<and>
      fst (is_valid_integer (entry_text s) s))"
proof (cases "py_int (entry_text s)")
  case None
  then show ?thesis
    by (simp add: on_go_to_invalid invalid_result_frame is_valid_integer_result)
next
  case (Some n)
  then show ?thesis
    by (simp add: on_go_to_valid is_valid_integer_result split: option.splits)
qed

theorem commit_pushes_iff_valid_witness:
  "rpc_log (on_go_to gw_up (st (ascii ''30'') False)) =
     rpc_log (st (ascii ''30'') False) @ [Root, SetParam ''current_frame'' 30] \<and>
   rpc_log (on_go_to gw_down (st (ascii ''30'') False)) = rpc_log (st (ascii ''30'') False) @ [Root] \<and>
   rpc_log (on_go_to gw_up (st (ascii ''abc'') False)) = rpc_log (st (ascii ''abc'') False)"
proof -
  have a: "py_int (entry_text (st (ascii ''30'') b)) = Some 30" for b
    unfolding st_fields by code_simp
  have b: "py_int (entry_text (st (ascii ''abc'') b)) = None" for b
    unfolding st_fields by code_simp
  note c = commit_pushes_iff_valid [THEN conjunct2, THEN conjunct1]
  have "rpc_log (on_go_to gw_up (st (ascii ''30'') False)) =
      rpc_log (st (ascii ''30'') False) @ [Root, SetParam ''current_frame'' 30]"
    using c [of gw_up "st (ascii ''30'') False"] by (simp only: a option.case) (simp add: gw_up_def)
  moreover have "rpc_log (on_go_to gw_down (st (ascii ''30'') False)) =
      rpc_log (st (ascii ''30'') False) @ [Root]"
    using c [of gw_down "st (ascii ''30'') False"] by (simp only: a option.case) (simp add: gw_down_def)
  moreover have "rpc_log (on_go_to gw_up (st (ascii ''abc'') False)) = rpc_log (st (ascii ''abc'') False)"
    using c [of gw_up "st (ascii ''abc'') False"] by (simp only: b option.case) simp
  ultimately show ?thesis by blast
qed

text \<open>
  Claim C3, as amended. When the text of the field is valid, \<^verbatim>\<open>on_go_to\<close> leaves the flag
  \<^verbatim>\<open>ERROR_SHOWN\<close> false, whatever the remote call does; \<^verbatim>\<open>increase_value\<close>,
  \<^verbatim>\<open>decrease_value\<close> and \<^verbatim>\<open>on_mouse_wheel\<close> leave the flag as it was.
\<close>

theorem flag_after_valid_handlers:
  "py_int (entry_text s) \<noteq> None \<Longrightarrow>
     \<not> ERROR_SHOWN (on_go_to gw s) \<and>
     ERROR_SHOWN (increase_value s) = ERROR_SHOWN s \<and>
     ERROR_SHOWN (decrease_value s) = ERROR_SHOWN s \<and>
     ERROR_SHOWN (on_mouse_wheel delta s) = ERROR_SHOWN s"
  by (auto simp: on_go_to_valid increase_value_valid decrease_value_valid on_mouse_wheel_valid
      set_str_frame split: option.splits if_splits)

theorem flag_after_valid_handlers_witness:
  "py_int (entry_text (st (ascii ''5'') True)) \<noteq> None \<and>
   \<not> ERROR_SHOWN (on_go_to gw_up (st (ascii ''5'') True)) \<and>
   ERROR_SHOWN (increase_value (st (ascii ''5'') True)) \<and>
   ERROR_SHOWN (decrease_value (st (ascii ''5'') True)) \<and>
   ERROR_SHOWN (on_mouse_wheel 120 (st (ascii ''5'') True))"
proof -
  have a: "py_int (entry_text (st (ascii ''5'') True)) \<noteq> None"
    unfolding st_fields by code_simp
  from flag_after_valid_handlers [OF a, of gw_up 120] a show ?thesis
    by (simp add: st_fields)
qed

text \<open>
  The claim as stated fails: a warning is shown for the text abc, the text is replaced by
  5 without a key release, and after the Up key, the Down key or a turn of the wheel the
  flag is still true although the text was valid.
\<close>

theorem flag_kept_by_step_counterexample:
  "py_int (entry_text (main gw_up [Edit (ascii ''abc''), KeyRelease, Edit (ascii ''5'')])) = Some 5 \<and>
   ERROR_SHOWN (main gw_up [Edit (ascii ''abc''), KeyRelease, Edit (ascii ''5''), Up]) \<and>
   ERROR_SHOWN (main gw_up [Edit (ascii ''abc''), KeyRelease, Edit (ascii ''5''), Down]) \<and>
   ERROR_SHOWN (main gw_up [Edit (ascii ''abc''), KeyRelease, Edit (ascii ''5''), MouseWheel 120])"
  by code_simp

text \<open>
  Claim C8. When the text is valid and the push fails, in \<^verbatim>\<open>tg.root()\<close> or in
  \<^verbatim>\<open>set_param\<close>, with the error \<open>e\<close>, the handler shows one warning with the script's name
  as title and the message of \<open>e\<close>, makes no second attempt, and changes nothing else but
  the flag, which it had cleared before the call: the text of the field and the snapshot
  are as before. The message names the kind of the error and appends its text, the
  traceback for an API error.
\<close>

theorem failed_push_keeps_text:
  "py_int (entry_text s) = Some n \<and>
   (tg_root gw (rpc_log s) = Some e \<or>
    tg_root gw (rpc_log s) = None \<and> set_param gw (rpc_log s @ [Root]) ''current_frame'' n = Some e) \<longrightarrow>
     on_go_to gw s =
       s\<lparr>ERROR_SHOWN := False,
         rpc_log := rpc_log s @
           (if tg_root gw (rpc_log s) = None then [Root, SetParam ''current_frame'' n] else [Root]),
         popups := popups s @ [(script_name, rpc_message e)]\<rparr> \<and>
     current_frame_var (on_go_to gw s) = current_frame_var s \<and>
     entry_text (on_go_to gw s) = entry_text s \<and>
     current_frame_at_startup (on_go_to gw s) = current_frame_at_startup s \<and>
     rpc_message (ConnectionError d) = ''Terragen RPC connection error'' @ d \<and>
     rpc_message (TimeoutError d) = ''Terragen RPC timeout error'' @ d \<and>
     rpc_message (ReplyError d) = ''Terragen RPC reply error'' @ d \<and>
     rpc_message (ApiError d) = ''Terragen RPC API error'' @ d"
  by (auto simp: on_go_to_valid rpc_message_def entry_text_def)

theorem failed_push_keeps_text_witness:
  "entry_text (on_go_to gw_push_fails (st (ascii ''30'') False)) = ascii ''30'' \<and>
   popups (on_go_to gw_push_fails (st (ascii ''30'') False)) =
     [(''tg_go_to_frame.py'', ''Terragen RPC API errortrace'')] \<and>
   rpc_log (on_go_to gw_push_fails (st (ascii ''30'') False)) =
     rpc_log (st (ascii ''30'') False) @ [Root, SetParam ''current_frame'' 30]"
proof -
  let ?s = "st (ascii ''30'') False"
  have a: "py_int (entry_text ?s) = Some 30"
    unfolding st_fields by code_simp
  have b: "tg_root gw_push_fails (rpc_log ?s) = None \<and>
      set_param gw_push_fails (rpc_log ?s @ [Root]) ''current_frame'' 30 = Some (ApiError ''trace'')"
    by (simp add: gw_push_fails_def)
  from failed_push_keeps_text [of ?s 30 gw_push_fails "ApiError ''trace''" "''trace''"] a b
  have "on_go_to gw_push_fails ?s =
       ?s\<lparr>ERROR_SHOWN := False,
         rpc_log := rpc_log ?s @ [Root, SetParam ''current_frame'' 30],
         popups := popups ?s @ [(script_name, rpc_message (ApiError ''trace''))]\<rparr>"
    by simp
  then show ?thesis
    by (simp add: st_fields script_name_def rpc_message_def entry_text_def tcl_string_def)
qed




section \<open>Steps\<close>

lemma on_mouse_wheel_at_limit:
  "py_int (entry_text s) = Some n \<Longrightarrow>
     0 < delta \<and> n = 10 ^ int_max_str_digits - 1 \<or>
     delta < 0 \<and> n = 1 - 10 ^ int_max_str_digits \<Longrightarrow>
     on_mouse_wheel delta s = raise_ValueError s"
  using py_str_succ [of "entry_text s" n] py_str_pred [of "entry_text s" n]
  by (auto simp: on_mouse_wheel_valid set_str_None)

text \<open>
  Claim C4, as amended. When the text of the field parses to \<open>n\<close>, \<^verbatim>\<open>increase_value\<close> makes
  the field show the numeral of \<open>n + 1\<close> and \<^verbatim>\<open>decrease_value\<close> that of \<open>n - 1\<close>.
  \<^verbatim>\<open>on_mouse_wheel\<close> does the first for a positive and the second for a negative delta,
  provided the result is a numeral of at most 4300 digits, which excludes only the step
  upwards from 4300 nines and the step downwards from minus 4300 nines. Under the same
  proviso the new text parses back to the new integer. When the text is invalid the three
  handlers leave the field as it is. None of them makes a remote call.
\<close>

theorem steps_are_local:
  "(py_int (entry_text s) = Some n \<longrightarrow>
      entry_text (increase_value s) = decimal (n + 1) \<and>
      entry_text (decrease_value s) = decimal (n - 1) \<and>
      (n \<noteq> 10 ^ int_max_str_digits - 1 \<longrightarrow>
         py_int (entry_text (increase_value s)) = Some (n + 1)) \<and>
      (n \<noteq> 1 - 10 ^ int_max_str_digits \<longrightarrow>
         py_int (entry_text (decrease_value s)) = Some (n - 1)) \<and>
      (0 < delta \<and> n \<noteq> 10 ^ int_max_str_digits - 1 \<longrightarrow>
         entry_text (on_mouse_wheel delta s) = decimal (n + 1) \<and>
         py_int (entry_text (on_mouse_wheel delta s)) = Some (n + 1)) \<and>
      (delta < 0 \<and> n \<noteq> 1 - 10 ^ int_max_str_digits \<longrightarrow>
         entry_text (on_mouse_wheel delta s) = decimal (n - 1) \<and>
         py_int (entry_text (on_mouse_wheel delta s)) = Some (n - 1))) \<and>
   (py_int (entry_text s) = None \<longrightarrow>
      current_frame_var (increase_value s) = current_frame_var s \<and>
      current_frame_var (decrease_value s) = current_frame_var s \<and>
      current_frame_var (on_mouse_wheel delta s) = current_frame_var s) \<and>
   rpc_log (increase_value s) = rpc_log s \<and>
   rpc_log (decrease_value s) = rpc_log s \<and>
   rpc_log (on_mouse_wheel delta s) = rpc_log s"
proof (cases "py_int (entry_text s)")
  case None
  from on_mouse_wheel_invalid [OF None, of delta]
  have "current_frame_var (on_mouse_wheel delta s) = current_frame_var s \<and>
      rpc_log (on_mouse_wheel delta s) = rpc_log s"
    by (auto simp: invalid_result_frame)
  with None show ?thesis
    by (simp add: increase_value_invalid decrease_value_invalid invalid_result_frame)
next
  case (Some m)
  note up = py_str_succ [OF Some] and down = py_str_pred [OF Some]
  have inc: "entry_text (increase_value s) = decimal (m + 1)"
    and dec: "entry_text (decrease_value s) = decimal (m - 1)"
    by (simp_all add: increase_value_valid [OF Some] decrease_value_valid [OF Some]
        entry_text_def tcl_string_def)
  have w_up: "0 < delta \<Longrightarrow> m \<noteq> 10 ^ int_max_str_digits - 1 \<Longrightarrow>
      entry_text (on_mouse_wheel delta s) = decimal (m + 1)"
    using up by (simp add: on_mouse_wheel_valid [OF Some] set_str_Some entry_text_def tcl_string_def)
  have w_down: "delta < 0 \<Longrightarrow> m \<noteq> 1 - 10 ^ int_max_str_digits \<Longrightarrow>
      entry_text (on_mouse_wheel delta s) = decimal (m - 1)"
    using down by (simp add: on_mouse_wheel_valid [OF Some] set_str_Some entry_text_def tcl_string_def)
  have back_up: "m \<noteq> 10 ^ int_max_str_digits - 1 \<Longrightarrow> py_int (decimal (m + 1)) = Some (m + 1)"
    using up by (simp add: py_int_decimal_ok)
  have back_down: "m \<noteq> 1 - 10 ^ int_max_str_digits \<Longrightarrow> py_int (decimal (m - 1)) = Some (m - 1)"
    using down by (simp add: py_int_decimal_ok)
  have log: "rpc_log (increase_value s) = rpc_log s" "rpc_log (decrease_value s) = rpc_log s"
    "rpc_log (on_mouse_wheel delta s) = rpc_log s"
    by (simp_all add: increase_value_valid [OF Some] decrease_value_valid [OF Some]
        on_mouse_wheel_valid [OF Some] set_str_frame)
  from Some inc dec w_up w_down back_up back_down log show ?thesis
    by (simp only: option.inject option.distinct simp_thms) metis
qed

theorem steps_are_local_witness:
  "entry_text (increase_value (st (ascii ''24'') False)) = ascii ''25'' \<and>
   entry_text (decrease_value (st (ascii ''24'') False)) = ascii ''23'' \<and>
   entry_text (on_mouse_wheel (- 120) (st (ascii ''5'') False)) = ascii ''4'' \<and>
   entry_text (on_mouse_wheel 120 (st (ascii ''-1'') False)) = ascii ''0'' \<and>
   current_frame_var (increase_value (st (ascii ''abc'') False)) = TclStr (ascii ''abc'') \<and>
   rpc_log (increase_value (st (ascii ''24'') False)) = rpc_log (st (ascii ''24'') False)"
proof -
  have a: "py_int (entry_text (st (ascii ''24'') False)) = Some 24"
    "py_int (entry_text (st (ascii ''5'') False)) = Some 5"
    "py_int (entry_text (st (ascii ''-1'') False)) = Some (- 1)"
    "py_int (entry_text (st (ascii ''abc'') False)) = None"
    unfolding st_fields by code_simp+
  have b: "decimal (24 + 1) = ascii ''25''" "decimal (24 - 1) = ascii ''23''"
    "decimal (5 - 1) = ascii ''4''" "decimal (- 1 + 1) = ascii ''0''"
    by code_simp+
  have "(0::int) < 10 ^ int_max_str_digits" by simp
  then have c: "(5::int) \<noteq> 1 - 10 ^ int_max_str_digits" "(- 1::int) \<noteq> 10 ^ int_max_str_digits - 1"
    by linarith+
  from steps_are_local [of "st (ascii ''24'') False" 24 0] a(1)
  have "entry_text (increase_value (st (ascii ''24'') False)) = decimal (24 + 1) \<and>
      entry_text (decrease_value (st (ascii ''24'') False)) = decimal (24 - 1) \<and>
      rpc_log (increase_value (st (ascii ''24'') False)) = rpc_log (st (ascii ''24'') False)"
    by blast
  moreover
  from steps_are_local [of "st (ascii ''5'') False" 5 "- 120"] a(2) c(1)
  have "entry_text (on_mouse_wheel (- 120) (st (ascii ''5'') False)) = decimal (5 - 1)"
    by simp
  moreover
  from steps_are_local [of "st (ascii ''-1'') False" "- 1" 120] a(3) c(2)
  have "entry_text (on_mouse_wheel 120 (st (ascii ''-1'') False)) = decimal (- 1 + 1)"
    by simp
  moreover
  from steps_are_local [of "st (ascii ''abc'') False" 0 0] a(4)
  have "current_frame_var (increase_value (st (ascii ''abc'') False)) =
      current_frame_var (st (ascii ''abc'') False)"
    by blast
  ultimately show ?thesis by (simp only: b st_fields) 
qed

lemma length_decimal_power: "length (decimal (10 ^ k)) = Suc k"
proof -
  have n: "nat (10 ^ k :: int) = 10 ^ k" by (simp add: nat_power_eq)
  have "decimal (10 ^ k) = str_digits (nat (10 ^ k))" by (simp add: decimal_def)
  then show ?thesis by (simp only: n length_str_digits_power)
qed

text \<open>
  The claim as stated fails: with 4300 nines in the field, a valid text, a turn of the
  wheel upwards does not add 1. The handler is left by \<^verbatim>\<open>ValueError\<close> and the field still
  shows the nines.
\<close>

theorem wheel_at_digit_limit:
  "py_int (entry_text (st nines False)) = Some (10 ^ int_max_str_digits - 1) \<and>
   entry_text (on_mouse_wheel 120 (st nines False)) = nines \<and>
   entry_text (on_mouse_wheel 120 (st nines False)) \<noteq> decimal (10 ^ int_max_str_digits - 1 + 1) \<and>
   uncaught (on_mouse_wheel 120 (st nines False)) = [ValueError]"
proof -
  let ?s = "st nines False"
  have v: "py_int (entry_text ?s) = Some (10 ^ int_max_str_digits - 1)"
    by (simp add: st_fields py_int_nines)
  have "py_str (10 ^ int_max_str_digits - 1 + 1) = None"
    using py_str_power by simp
  then have w: "on_mouse_wheel 120 ?s = raise_ValueError ?s"
    by (simp add: on_mouse_wheel_valid [OF v] set_str_None)
  have "length (decimal (10 ^ int_max_str_digits - 1 + 1)) = Suc int_max_str_digits"
    using length_decimal_power [of int_max_str_digits] by simp
  moreover have "length nines = int_max_str_digits" by (simp add: nines_def)
  ultimately have ne: "nines \<noteq> decimal (10 ^ int_max_str_digits - 1 + 1)"
    by auto
  from v w ne show ?thesis
    by (simp add: raise_ValueError_def entry_text_def tcl_string_def st_fields)
qed

section \<open>Validation\<close>

lemma PyLong_FromString_plus:
  assumes "\<forall>c\<in>set xs. is_digit c" and "xs \<noteq> []"
  shows "PyLong_FromString (43 # xs) =
           (if length xs > int_max_str_digits then None else Some (int (foldl dec_step 0 xs)))"
proof -
  from assms have hd: "is_digit (hd xs)" by (cases xs) auto
  have "dropWhile Py_ISSPACE (43 # xs) = 43 # xs"
    by (simp add: Py_ISSPACE_def)
  moreover have "take_sign (43 # xs) = (1, xs)"
    by (simp add: take_sign_def)
  moreover from assms(2) hd digit_not_special [of "hd xs"] have "take 1 xs \<noteq> [95]"
    by (cases xs) auto
  moreover have "scan_digits 0 0 0 xs = Some (length xs, foldl dec_step 0 xs, [])"
    using scan_digits_all [OF assms, of 0 0 0] by simp
  ultimately show ?thesis using assms(2) by (simp add: PyLong_FromString_def)
qed

lemma signed_decimal_valid:
  assumes "signed_decimal t"
  shows "py_int t \<noteq> None \<longleftrightarrow> length (drop_sign t) \<le> int_max_str_digits"
proof -
  let ?b = "drop_sign t"
  from assms have b: "\<forall>c\<in>set ?b. is_digit c" "?b \<noteq> []"
    by (simp_all add: signed_decimal_def list_all_iff)
  have m: "map to_ascii ?b = ?b" using b(1) by (rule map_to_ascii_digits)
  from b(2) obtain c cs where t: "t = c # cs" by (cases t) (auto simp: drop_sign_def)
  show ?thesis
  proof (cases "c = 43 \<or> c = 45")
    case True
    with t have d: "?b = cs" by (auto simp: drop_sign_def)
    from True have "to_ascii c = c" by (auto simp: to_ascii_def)
    with t d m have "map to_ascii t = c # ?b" by simp
    with True PyLong_FromString_plus [OF b] PyLong_FromString_minus [OF b] show ?thesis
      by (auto simp: py_int_def split: if_splits)
  next
    case False
    with t have "?b = t" by (simp add: drop_sign_def)
    with m PyLong_FromString_digits [OF b] show ?thesis by (simp add: py_int_def)
  qed
qed

text \<open>
  Claim C9, as amended. Read every decimal digit of Unicode as the ASCII digit of its
  value and every white space of Unicode as a space. Then \<^verbatim>\<open>is_valid_integer\<close> returns
  true exactly for the texts that are: white space or none, an optional sign, runs of
  digits with a single underscore between two runs, white space or none; with at most
  4300 digits in all. In particular an optional sign followed by ASCII digits is accepted
  exactly when the digits are at most 4300.
\<close>

theorem validate_integer_accepts_literals:
  "fst (is_valid_integer t s) = integer_literal (map to_ascii t) \<and>
   (signed_decimal t \<longrightarrow>
      fst (is_valid_integer t s) = (length (drop_sign t) \<le> int_max_str_digits))"
  using py_int_literal [of t] signed_decimal_valid [of t]
  by (auto simp: is_valid_integer_result)

theorem validate_integer_accepts_literals_witness:
  "signed_decimal (ascii ''-12'') \<and> fst (is_valid_integer (ascii ''-12'') module_state) \<and>
   fst (is_valid_integer (ascii '' +1_0 '') module_state) \<and>
   fst (is_valid_integer [0x663, 0x664] module_state) \<and>
   \<not> fst (is_valid_integer (ascii ''1__0'') module_state) \<and>
   \<not> fst (is_valid_integer (ascii ''abc'') module_state)"
proof -
  have a: "signed_decimal (ascii ''-12'')" by code_simp
  have a': "length (drop_sign (ascii ''-12'')) \<le> int_max_str_digits" by code_simp
  have b: "integer_literal (map to_ascii (ascii '' +1_0 ''))" by code_simp
  have "map to_ascii [0x663, 0x664] = [51, 52]"
    by (simp add: to_ascii_def Py_UNICODE_ISSPACE_def Py_UNICODE_TODECIMAL_def decimal_zeros_def)
  moreover have "integer_literal [51, 52]" by code_simp
  ultimately have b': "integer_literal (map to_ascii [0x663, 0x664])" by simp
  have c: "\<not> integer_literal (map to_ascii (ascii ''1__0''))" by code_simp
  have d: "\<not> integer_literal (map to_ascii (ascii ''abc''))" by code_simp
  show ?thesis
    using a a' b b' c d
      validate_integer_accepts_literals [of "ascii ''-12''" module_state]
      validate_integer_accepts_literals [of "ascii '' +1_0 ''" module_state]
      validate_integer_accepts_literals [of "[0x663, 0x664]" module_state]
      validate_integer_accepts_literals [of "ascii ''1__0''" module_state]
      validate_integer_accepts_literals [of "ascii ''abc''" module_state]
    by blast
qed

text \<open>
  The claim as stated fails in both directions. A text with a leading space, one with an
  underscore between its digits and the Arabic-Indic digit three pass the validation and
  are not an optional sign followed by decimal digits; 4301 nines are such a sequence of
  digits and fail the validation.
\<close>

theorem validate_integer_not_signed_decimal:
  "fst (is_valid_integer (ascii '' 7'') module_state) \<and> \<not> signed_decimal (ascii '' 7'') \<and>
   fst (is_valid_integer (ascii ''1_0'') module_state) \<and> \<not> signed_decimal (ascii ''1_0'') \<and>
   fst (is_valid_integer [0x663] module_state) \<and> \<not> signed_decimal [0x663] \<and>
   signed_decimal (57 # nines) \<and> \<not> fst (is_valid_integer (57 # nines) module_state)"
proof -
  have a: "fst (is_valid_integer (ascii '' 7'') module_state) \<and> \<not> signed_decimal (ascii '' 7'') \<and>
      fst (is_valid_integer (ascii ''1_0'') module_state) \<and> \<not> signed_decimal (ascii ''1_0'')"
    by code_simp
  have "map to_ascii [0x663] = [51]"
    by (simp add: to_ascii_def Py_UNICODE_ISSPACE_def Py_UNICODE_TODECIMAL_def decimal_zeros_def)
  moreover have "PyLong_FromString [51] = Some 3" by code_simp
  ultimately have "py_int [0x663] = Some 3" by (simp add: py_int_def)
  then have u: "fst (is_valid_integer [0x663] module_state)"
    by (simp add: is_valid_integer_result)
  have u': "\<not> signed_decimal [0x663]"
    by (simp add: signed_decimal_def drop_sign_def is_digit_def)
  have dg: "\<forall>c\<in>set (57 # nines). is_digit c" by (simp add: nines_def is_digit_def)
  then have b: "signed_decimal (57 # nines)"
    by (simp add: signed_decimal_def drop_sign_def list_all_iff)
  have "length (57 # nines) > int_max_str_digits" by (simp add: nines_def)
  with py_int_digits [OF dg] have "py_int (57 # nines) = None" by simp
  then have c: "\<not> fst (is_valid_integer (57 # nines) module_state)"
    by (simp add: is_valid_integer_result)
  from a u u' b c show ?thesis by blast
qed

section \<open>Escape and the startup\<close>

lemma mainloop_append: "mainloop gw (es @ es') s = mainloop gw es' (mainloop gw es s)"
  by (induction es arbitrary: s) simp_all

lemma snapshot_dispatch:
  "current_frame_at_startup (dispatch gw e s) = current_frame_at_startup s"
proof (cases "py_int (entry_text s)")
  case None
  have "current_frame_at_startup (on_mouse_wheel d s) = current_frame_at_startup s" for d
    using on_mouse_wheel_invalid [OF None, of d] by (auto simp: invalid_result_frame)
  with None show ?thesis
    by (cases e)
       (simp_all add: on_go_to_invalid increase_value_invalid decrease_value_invalid
         on_escape_def raise_ValueError_def invalid_result_frame split: option.splits)
next
  case (Some n)
  then show ?thesis
    by (cases e)
       (simp_all add: on_go_to_valid increase_value_valid decrease_value_valid
         on_mouse_wheel_valid on_escape_def raise_ValueError_def set_str_frame
         split: option.splits)
qed

lemma snapshot_mainloop:
  "current_frame_at_startup (mainloop gw es s) = current_frame_at_startup s"
  by (induction es arbitrary: s) (simp_all add: snapshot_dispatch)

lemma module_state_fields:
  "current_frame_at_startup module_state = TclStr []"
  "current_frame_var module_state = TclStr (ascii ''1'')"
  "\<not> ERROR_SHOWN module_state" "popups module_state = []" "rpc_log module_state = []"
  "uncaught module_state = []"
  by (simp_all add: module_state_def)

lemma on_startup_module:
  "on_startup gw module_state =
     (case tg_root gw [] of
        Some e \<Rightarrow> module_state\<lparr>rpc_log := [Root], popups := [(script_name, rpc_message e)]\<rparr>
      | None \<Rightarrow>
          (case get_param gw [Root] ''current_frame'' of
             Inl e \<Rightarrow>
               module_state\<lparr>rpc_log := [Root, GetParam ''current_frame''],
                 popups := [(script_name, rpc_message e)]\<rparr>
           | Inr v \<Rightarrow>
               (case py_str v of
                  None \<Rightarrow>
                    module_state\<lparr>current_frame_at_startup := TclInt v,
                      rpc_log := [Root, GetParam ''current_frame''],
                      uncaught := [ValueError]\<rparr>
                | Some t \<Rightarrow>
                    (case get_param gw [Root, GetParam ''current_frame''] ''start_frame'' of
                       Inl e \<Rightarrow>
                         module_state\<lparr>current_frame_at_startup := TclInt v,
                           current_frame_var := TclStr t,
                           rpc_log := [Root, GetParam ''current_frame'', GetParam ''start_frame''],
                           popups := [(script_name, rpc_message e)]\<rparr>
                     | Inr a \<Rightarrow>
                         (case get_param gw
                                 [Root, GetParam ''current_frame'', GetParam ''start_frame'']
                                 ''end_frame'' of
                            Inl e \<Rightarrow>
                              module_state\<lparr>current_frame_at_startup := TclInt v,
                                current_frame_var := TclStr t,
                                start_frame_var := TclInt a,
                                rpc_log := [Root, GetParam ''current_frame'',
                                  GetParam ''start_frame'', GetParam ''end_frame''],
                                popups := [(script_name, rpc_message e)]\<rparr>
                          | Inr b \<Rightarrow>
                              module_state\<lparr>current_frame_at_startup := TclInt v,
                                current_frame_var := TclStr t,
                                start_frame_var := TclInt a,
                                end_frame_var := TclInt b,
                                rpc_log := [Root, GetParam ''current_frame'',
                                  GetParam ''start_frame'', GetParam ''end_frame'']\<rparr>)))))"
  by (simp add: on_startup_def call_root_def call_get_param_def rpc_warning_def
      popup_warning_def raise_ValueError_def StringVar_get_def module_state_def
      split: option.splits sum.splits)

lemma startup_snapshot_readable:
  "uncaught (on_startup gw module_state) = [] \<Longrightarrow>
     StringVar_get (current_frame_at_startup (on_startup gw module_state)) =
       Some (snapshot_text (on_startup gw module_state))"
  by (auto simp: on_startup_module module_state_fields snapshot_text_def tcl_string_def
      StringVar_get_def split: option.splits sum.splits dest: py_str_Some)

text \<open>
  Claim C5. The handler of Escape, \<^verbatim>\<open>on_escape\<close>, does one thing: it writes the text of
  \<^verbatim>\<open>current_frame_at_startup\<close> into the field. It validates nothing, shows no warning and
  makes no remote call. In every run that reaches the event loop, after any sequence of
  events, the field then shows the text the snapshot variable held when \<^verbatim>\<open>on_startup\<close>
  returned. (The loop is not reached when the remote application answers with a current
  frame of more than 4300 digits: reading the snapshot back raises \<^verbatim>\<open>ValueError\<close> at the
  top level of the script.)
\<close>

theorem escape_restores_snapshot:
  "(StringVar_get (current_frame_at_startup s) = Some t \<longrightarrow>
      on_escape s = s\<lparr>current_frame_var := TclStr t\<rparr>) \<and>
   (uncaught (on_startup gw module_state) = [] \<longrightarrow>
      entry_text (main gw (es @ [Escape])) = snapshot_text (on_startup gw module_state) \<and>
      rpc_log (main gw (es @ [Escape])) = rpc_log (main gw es) \<and>
      popups (main gw (es @ [Escape])) = popups (main gw es) \<and>
      ERROR_SHOWN (main gw (es @ [Escape])) = ERROR_SHOWN (main gw es) \<and>
      uncaught (main gw (es @ [Escape])) = uncaught (main gw es))"
proof (intro conjI impI)
  assume "StringVar_get (current_frame_at_startup s) = Some t"
  then show "on_escape s = s\<lparr>current_frame_var := TclStr t\<rparr>"
    by (simp add: on_escape_def)
next
  let ?init = "on_startup gw module_state"
  let ?cur = "mainloop gw es ?init"
  assume u: "uncaught ?init = []"
  then have m: "main gw es' = mainloop gw es' ?init" for es'
    by (simp add: main_def)
  from startup_snapshot_readable [OF u]
  have "StringVar_get (current_frame_at_startup ?cur) = Some (snapshot_text ?init)"
    by (simp only: snapshot_mainloop)
  then have e: "on_escape ?cur = ?cur\<lparr>current_frame_var := TclStr (snapshot_text ?init)\<rparr>"
    by (simp add: on_escape_def)
  show "entry_text (main gw (es @ [Escape])) = snapshot_text ?init"
    "rpc_log (main gw (es @ [Escape])) = rpc_log (main gw es)"
    "popups (main gw (es @ [Escape])) = popups (main gw es)"
    "ERROR_SHOWN (main gw (es @ [Escape])) = ERROR_SHOWN (main gw es)"
    "uncaught (main gw (es @ [Escape])) = uncaught (main gw es)"
    by (simp_all add: m mainloop_append e entry_text_def tcl_string_def)
qed

theorem escape_restores_snapshot_witness:
  "entry_text (main gw_up [Up, Edit (ascii ''abc''), KeyRelease, Edit (ascii ''30''), KeyRelease, Escape]) =
     ascii ''24'' \<and>
   rpc_log (main gw_up [Up, Edit (ascii ''abc''), KeyRelease, Edit (ascii ''30''), KeyRelease, Escape]) =
     rpc_log (main gw_up [Up, Edit (ascii ''abc''), KeyRelease, Edit (ascii ''30''), KeyRelease])"
proof -
  have a: "uncaught (on_startup gw_up module_state) = []"
    by code_simp
  have b: "snapshot_text (on_startup gw_up module_state) = ascii ''24''"
    by code_simp
  from escape_restores_snapshot [of _ _ gw_up
      "[Up, Edit (ascii ''abc''), KeyRelease, Edit (ascii ''30''), KeyRelease]"] a
  show ?thesis by (simp only: b append.simps) 
qed

lemma startup_unreadable_frame:
  "tg_root gw [] = None \<Longrightarrow> get_param gw [Root] ''current_frame'' = Inr v \<Longrightarrow> py_str v = None \<Longrightarrow>
     popups (on_startup gw module_state) = [] \<and>
     uncaught (on_startup gw module_state) = [ValueError] \<and>
     entry_text (on_startup gw module_state) = ascii ''1''"
  by (simp add: on_startup_module module_state_fields entry_text_def tcl_string_def)

text \<open>
  Claim C6, as amended. If \<^verbatim>\<open>tg.root()\<close> or the fetch of \<^verbatim>\<open>current_frame\<close> fails at
  startup, exactly one warning with the message of the error is shown and the field keeps
  its default text 1 (the snapshot stays empty). If the fetch of \<^verbatim>\<open>start_frame\<close> or of
  \<^verbatim>\<open>end_frame\<close> fails after \<^verbatim>\<open>current_frame\<close> was fetched, exactly one warning is shown as
  well, and the field and the snapshot hold the numeral of the fetched current frame;
  this for a current frame of at most 4300 digits, since only then are the later fetches
  made.
\<close>

theorem startup_failure_one_warning:
  "(tg_root gw [] = Some e \<or>
    tg_root gw [] = None \<and> get_param gw [Root] ''current_frame'' = Inl e \<longrightarrow>
      popups (on_startup gw module_state) = [(script_name, rpc_message e)] \<and>
      entry_text (on_startup gw module_state) = ascii ''1'' \<and>
      snapshot_text (on_startup gw module_state) = []) \<and>
   (tg_root gw [] = None \<and> get_param gw [Root] ''current_frame'' = Inr v \<and> py_str v \<noteq> None \<and>
    (get_param gw [Root, GetParam ''current_frame''] ''start_frame'' = Inl e \<or>
     get_param gw [Root, GetParam ''current_frame''] ''start_frame'' = Inr a \<and>
     get_param gw [Root, GetParam ''current_frame'', GetParam ''start_frame''] ''end_frame'' = Inl e) \<longrightarrow>
      popups (on_startup gw module_state) = [(script_name, rpc_message e)] \<and>
      entry_text (on_startup gw module_state) = decimal v \<and>
      snapshot_text (on_startup gw module_state) = decimal v)"
  by (auto simp: on_startup_module module_state_fields entry_text_def snapshot_text_def
      tcl_string_def dest: py_str_Some)

theorem startup_failure_one_warning_witness:
  "popups (on_startup gw_down module_state) =
     [(''tg_go_to_frame.py'', ''Terragen RPC connection errorrefused'')] \<and>
   entry_text (on_startup gw_down module_state) = ascii ''1'' \<and>
   popups (on_startup gw_start_timeout module_state) =
     [(''tg_go_to_frame.py'', ''Terragen RPC timeout errortimed out'')] \<and>
   entry_text (on_startup gw_start_timeout module_state) = ascii ''24''"
proof -
  have a: "tg_root gw_down [] = Some (ConnectionError ''refused'')"
    by (simp add: gw_down_def)
  have b: "tg_root gw_start_timeout [] = None \<and>
      get_param gw_start_timeout [Root] ''current_frame'' = Inr 24 \<and> py_str 24 \<noteq> None \<and>
      get_param gw_start_timeout [Root, GetParam ''current_frame''] ''start_frame'' =
        Inl (TimeoutError ''timed out'')"
    by (simp add: gw_start_timeout_def py_str_24)
  have c: "decimal 24 = ascii ''24''" by code_simp
  have m: "rpc_message (ConnectionError ''refused'') = ''Terragen RPC connection errorrefused''"
    "rpc_message (TimeoutError ''timed out'') = ''Terragen RPC timeout errortimed out''"
    "script_name = ''tg_go_to_frame.py''"
    by (simp_all add: rpc_message_def script_name_def)
  from startup_failure_one_warning [of gw_down "ConnectionError ''refused''", THEN conjunct1] a
  have "popups (on_startup gw_down module_state) = [(script_name, rpc_message (ConnectionError ''refused''))] \<and>
      entry_text (on_startup gw_down module_state) = ascii ''1''"
    by blast
  moreover
  from startup_failure_one_warning [of gw_start_timeout "TimeoutError ''timed out''" 24,
      THEN conjunct2] b
  have "popups (on_startup gw_start_timeout module_state) = [(script_name, rpc_message (TimeoutError ''timed out''))] \<and>
      entry_text (on_startup gw_start_timeout module_state) = decimal 24"
    by blast
  ultimately show ?thesis by (simp only: m c)
qed

text \<open>
  The claim as stated fails: when \<^verbatim>\<open>current_frame\<close> is fetched as 24 and the fetch of
  \<^verbatim>\<open>start_frame\<close> times out, one warning is shown and the field holds 24, not 1.
\<close>

theorem startup_failure_after_first_fetch:
  "get_param gw_start_timeout [Root, GetParam ''current_frame''] ''start_frame'' =
     Inl (TimeoutError ''timed out'') \<and>
   length (popups (on_startup gw_start_timeout module_state)) = 1 \<and>
   entry_text (on_startup gw_start_timeout module_state) = ascii ''24'' \<and>
   entry_text (on_startup gw_start_timeout module_state) \<noteq> ascii ''1''"
  by code_simp

lemma snapshot_of_main:
  "current_frame_at_startup (main gw es) =
     (case tg_root gw [] of
        Some e \<Rightarrow> TclStr []
      | None \<Rightarrow>
          (case get_param gw [Root] ''current_frame'' of Inl e \<Rightarrow> TclStr [] | Inr v \<Rightarrow> TclInt v))"
  by (simp add: main_def Let_def snapshot_mainloop on_startup_module module_state_fields
      split: option.splits sum.splits)

text \<open>
  Claim C7. The snapshot is written by \<^verbatim>\<open>on_startup\<close> only, and only after the fetch of
  \<^verbatim>\<open>current_frame\<close> succeeded (\<open>snapshot_of_main\<close>); no handler changes it
  (\<open>snapshot_mainloop\<close>). But when the startup fetch fails the snapshot is the empty text
  of a fresh variable, which is not an integer: with the remote application unreachable
  the field starts at 1, and Escape replaces it by the empty text, which fails the
  validation.
\<close>

theorem escape_after_failed_startup:
  "entry_text (main gw_down []) = ascii ''1'' \<and>
   snapshot_text (main gw_down []) = [] \<and>
   py_int (snapshot_text (main gw_down [])) = None \<and>
   entry_text (main gw_down [Escape]) = [] \<and>
   \<not> fst (is_valid_integer (entry_text (main gw_down [Escape])) (main gw_down [Escape]))"
  by code_simp

section \<open>One warning for a run of invalid input\<close>

lemma invalid_between_Cons:
  "invalid_between gw (e # es) s \<longleftrightarrow>
     es = [] \<or> \<not> valid_text (dispatch gw e s) \<and> invalid_between gw es (dispatch gw e s)"
  by (cases es) simp_all

lemma script_name_not_invalid_input: "script_name \<noteq> ''Invalid input''"
  by (simp add: script_name_def)

lemma warnings_is_valid_integer:
  "invalid_input_warnings (snd (is_valid_integer t s)) =
     invalid_input_warnings s + (if py_int t = None \<and> \<not> ERROR_SHOWN s then 1 else 0)"
  by (simp add: is_valid_integer_def invalid_input_warnings_def popup_warning_def
      split: option.splits)

lemma flag_is_valid_integer:
  "py_int t = None \<Longrightarrow> ERROR_SHOWN (snd (is_valid_integer t s))"
  by (simp add: is_valid_integer_invalid)

lemma invalid_result_warnings:
  assumes "py_int (entry_text s) = None"
  shows "invalid_input_warnings (invalid_result s) \<le> invalid_input_warnings s + 1"
    and "ERROR_SHOWN s \<Longrightarrow>
           invalid_input_warnings (invalid_result s) = invalid_input_warnings s \<and>
           ERROR_SHOWN (invalid_result s)"
    and "invalid_input_warnings (invalid_result s) \<noteq> invalid_input_warnings s \<Longrightarrow>
           ERROR_SHOWN (invalid_result s)"
  using invalid_cases [OF assms]
  by (auto simp: invalid_result_def raise_ValueError_def is_valid_integer_invalid
      invalid_input_warnings_def)

lemma dispatch_invalid:
  assumes "\<not> valid_text s"
  shows "invalid_input_warnings (dispatch gw e s) \<le> invalid_input_warnings s + 1"
    and "ERROR_SHOWN s \<Longrightarrow>
           invalid_input_warnings (dispatch gw e s) = invalid_input_warnings s \<and>
           ERROR_SHOWN (dispatch gw e s)"
    and "invalid_input_warnings (dispatch gw e s) \<noteq> invalid_input_warnings s \<Longrightarrow>
           ERROR_SHOWN (dispatch gw e s)"
proof -
  from assms have inv: "py_int (entry_text s) = None" by (simp add: valid_text_def)
  note r = invalid_result_warnings [OF inv]
  have w: "invalid_input_warnings (on_mouse_wheel d s) = invalid_input_warnings (invalid_result s) \<and>
      ERROR_SHOWN (on_mouse_wheel d s) = ERROR_SHOWN (invalid_result s)" for d
    using on_mouse_wheel_invalid [OF inv, of d] by (auto simp: invalid_input_warnings_def)
  have esc: "invalid_input_warnings (on_escape s) = invalid_input_warnings s \<and>
      ERROR_SHOWN (on_escape s) = ERROR_SHOWN s"
    by (simp add: on_escape_def raise_ValueError_def invalid_input_warnings_def
        split: option.splits)
  have ed: "invalid_input_warnings (s\<lparr>current_frame_var := x\<rparr>) = invalid_input_warnings s" for x
    by (simp add: invalid_input_warnings_def)
  note h = on_go_to_invalid [OF inv] increase_value_invalid [OF inv]
    decrease_value_invalid [OF inv]
  show "invalid_input_warnings (dispatch gw e s) \<le> invalid_input_warnings s + 1"
    using r(1) by (cases e) (simp_all add: h w esc ed)
  show "ERROR_SHOWN s \<Longrightarrow>
      invalid_input_warnings (dispatch gw e s) = invalid_input_warnings s \<and>
      ERROR_SHOWN (dispatch gw e s)"
    using r(2) by (cases e) (simp_all add: h w esc ed)
  show "invalid_input_warnings (dispatch gw e s) \<noteq> invalid_input_warnings s \<Longrightarrow>
      ERROR_SHOWN (dispatch gw e s)"
    using r(3) by (cases e) (simp_all add: h w esc ed)
qed

lemma dispatch_valid:
  assumes "valid_text s"
  shows "invalid_input_warnings (dispatch gw e s) = invalid_input_warnings s"
proof -
  from assms obtain n where v: "py_int (entry_text s) = Some n"
    by (auto simp: valid_text_def)
  show ?thesis
    by (cases e)
       (simp_all add: on_go_to_valid [OF v] increase_value_valid [OF v] decrease_value_valid [OF v]
         on_mouse_wheel_valid [OF v] on_escape_def raise_ValueError_def set_str_frame
         invalid_input_warnings_def script_name_not_invalid_input split: option.splits)
qed

lemma quiet_run:
  "\<not> valid_text s \<Longrightarrow> ERROR_SHOWN s \<Longrightarrow> invalid_between gw es s \<Longrightarrow>
     invalid_input_warnings (mainloop gw es s) = invalid_input_warnings s"
proof (induction es arbitrary: s)
  case Nil
  then show ?case by simp
next
  case (Cons e es)
  let ?t = "dispatch gw e s"
  from Cons.prems have w: "invalid_input_warnings ?t = invalid_input_warnings s"
    and f: "ERROR_SHOWN ?t"
    by (simp_all add: dispatch_invalid)
  show ?case
  proof (cases "es = []")
    case True
    with w show ?thesis by simp
  next
    case False
    with Cons.prems(3) have "\<not> valid_text ?t" "invalid_between gw es ?t"
      by (simp_all add: invalid_between_Cons)
    from Cons.IH [OF this(1) f this(2)] w show ?thesis by simp
  qed
qed

lemma invalid_run:
  "\<not> valid_text s \<Longrightarrow> invalid_between gw es s \<Longrightarrow>
     invalid_input_warnings (mainloop gw es s) \<le> invalid_input_warnings s + 1"
proof (induction es arbitrary: s)
  case Nil
  then show ?case by simp
next
  case (Cons e es)
  let ?t = "dispatch gw e s"
  have w: "invalid_input_warnings ?t \<le> invalid_input_warnings s + 1"
    using Cons.prems(1) by (rule dispatch_invalid)
  show ?case
  proof (cases "es = []")
    case True
    with w show ?thesis by simp
  next
    case False
    with Cons.prems(2) have nv: "\<not> valid_text ?t" and ib: "invalid_between gw es ?t"
      by (simp_all add: invalid_between_Cons)
    show ?thesis
    proof (cases "invalid_input_warnings ?t = invalid_input_warnings s")
      case True
      with Cons.IH [OF nv ib] show ?thesis by simp
    next
      case False
      then have "ERROR_SHOWN ?t" using Cons.prems(1) by (rule dispatch_invalid(3) [rotated])
      from quiet_run [OF nv this ib] w show ?thesis by simp
    qed
  qed
qed

text \<open>
  Claim C2. One call of \<^verbatim>\<open>is_valid_integer\<close> shows the warning "Invalid input" exactly when
  the text is invalid and \<^verbatim>\<open>ERROR_SHOWN\<close> is false, and after a call on an invalid text the
  flag is true. Over the event loop: in a run of events in which the text is invalid in
  every state strictly between the first and the last, so in particular between two
  states with a valid text, at most one such warning is shown, however many events
  validate the invalid text.
\<close>

theorem one_warning_per_invalid_run:
  "invalid_input_warnings (snd (is_valid_integer t s)) =
     invalid_input_warnings s + (if py_int t = None \<and> \<not> ERROR_SHOWN s then 1 else 0) \<and>
   (py_int t = None \<longrightarrow> ERROR_SHOWN (snd (is_valid_integer t s))) \<and>
   (invalid_between gw es s \<longrightarrow>
      invalid_input_warnings (mainloop gw es s) \<le> invalid_input_warnings s + 1)"
proof (intro conjI impI)
  show "invalid_input_warnings (snd (is_valid_integer t s)) =
     invalid_input_warnings s + (if py_int t = None \<and> \<not> ERROR_SHOWN s then 1 else 0)"
    by (rule warnings_is_valid_integer)
  show "py_int t = None \<Longrightarrow> ERROR_SHOWN (snd (is_valid_integer t s))"
    by (rule flag_is_valid_integer)
  assume ib: "invalid_between gw es s"
  show "invalid_input_warnings (mainloop gw es s) \<le> invalid_input_warnings s + 1"
  proof (cases es)
    case Nil
    then show ?thesis by simp
  next
    case (Cons e es')
    let ?t = "dispatch gw e s"
    have first: "invalid_input_warnings ?t \<le> invalid_input_warnings s + 1"
      using dispatch_valid [of s gw e] dispatch_invalid(1) [of s gw e] by (cases "valid_text s") simp_all
    show ?thesis
    proof (cases "es' = []")
      case True
      with first Cons show ?thesis by simp
    next
      case False
      with ib Cons have nv: "\<not> valid_text ?t" and ib': "invalid_between gw es' ?t"
        by (simp_all add: invalid_between_Cons)
      show ?thesis
      proof (cases "invalid_input_warnings ?t = invalid_input_warnings s")
        case True
        with invalid_run [OF nv ib'] Cons show ?thesis by simp
      next
        case changed: False
        then have "\<not> valid_text s" using dispatch_valid [of s gw e] by auto
        from dispatch_invalid(3) [OF this changed] have "ERROR_SHOWN ?t" .
        from quiet_run [OF nv this ib'] first Cons show ?thesis by simp
      qed
    qed
  qed
qed

theorem one_warning_per_invalid_run_witness:
  "invalid_between gw_up
     [Edit (ascii ''abc''), KeyRelease, Edit (ascii ''abcd''), KeyRelease, Up, MouseWheel 120,
      Edit (ascii ''30'')]
     (st (ascii ''24'') False) \<and>
   invalid_input_warnings
     (mainloop gw_up
        [Edit (ascii ''abc''), KeyRelease, Edit (ascii ''abcd''), KeyRelease, Up, MouseWheel 120,
         Edit (ascii ''30'')]
        (st (ascii ''24'') False)) = 1 \<and>
   invalid_input_warnings (st (ascii ''24'') False) = 0"
proof -
  let ?es = "[Edit (ascii ''abc''), KeyRelease, Edit (ascii ''abcd''), KeyRelease, Up,
    MouseWheel 120, Edit (ascii ''30'')]"
  have a: "invalid_between gw_up ?es (st (ascii ''24'') False)" by code_simp
  have b: "invalid_input_warnings (st (ascii ''24'') False) = 0"
    by (simp add: invalid_input_warnings_def st_fields)
  have c: "1 \<le> invalid_input_warnings (mainloop gw_up ?es (st (ascii ''24'') False))" by code_simp
  from one_warning_per_invalid_run [of _ "st (ascii ''24'') False" gw_up ?es] a b c
  show ?thesis by simp
qed

end
